theory Spec2Isabelle
  imports Main "HOL-Library.Sublist"
begin

section \<open>Go strings\<close>

text \<open>
  A Go \<^verbatim>\<open>string\<close> is a byte sequence, here a \<^typ>\<open>string\<close>; text is UTF-8. The white
  space of \<^verbatim>\<open>unicode.IsSpace\<close>, which \<^verbatim>\<open>strings.TrimSpace\<close> and \<^verbatim>\<open>strings.Fields\<close>
  use, is embedded by the UTF-8 encodings of its code points. The case mappings and the
  letter and digit classes of package \<^verbatim>\<open>unicode\<close> beyond ASCII are tables of the Go
  library: they are a parameter \<open>u\<close> of every function that reaches them, and nothing
  is assumed of it. The white space class \<^verbatim>\<open>\s\<close> of package \<^verbatim>\<open>regexp\<close> is ASCII:
  \<^verbatim>\<open>\t \n \f \r\<close> and the blank (no \<^verbatim>\<open>\v\<close>).
\<close>

definition isSpace :: "char \<Rightarrow> bool" where
  "isSpace c = (c = CHR 0x09 \<or> c = CHR 0x0A \<or> c = CHR 0x0B \<or> c = CHR 0x0C
                \<or> c = CHR 0x0D \<or> c = CHR '' '')"

definition reSpace :: "char \<Rightarrow> bool" where
  "reSpace c = (c = CHR 0x09 \<or> c = CHR 0x0A \<or> c = CHR 0x0C \<or> c = CHR 0x0D \<or> c = CHR '' '')"

text \<open>
  The code points of \<^verbatim>\<open>unicode.IsSpace\<close> in UTF-8: the six ASCII characters, U+0085,
  U+00A0, U+1680, U+2000 to U+200A, U+2028, U+2029, U+202F, U+205F and U+3000.
\<close>

definition spaceTokens :: "string list" where
  "spaceTokens =
     [[CHR 0x09], [CHR 0x0A], [CHR 0x0B], [CHR 0x0C], [CHR 0x0D], [CHR 0x20],
      [CHR 0xC2, CHR 0x85], [CHR 0xC2, CHR 0xA0], [CHR 0xE1, CHR 0x9A, CHR 0x80],
      [CHR 0xE2, CHR 0x80, CHR 0x80], [CHR 0xE2, CHR 0x80, CHR 0x81],
      [CHR 0xE2, CHR 0x80, CHR 0x82], [CHR 0xE2, CHR 0x80, CHR 0x83],
      [CHR 0xE2, CHR 0x80, CHR 0x84], [CHR 0xE2, CHR 0x80, CHR 0x85],
      [CHR 0xE2, CHR 0x80, CHR 0x86], [CHR 0xE2, CHR 0x80, CHR 0x87],
      [CHR 0xE2, CHR 0x80, CHR 0x88], [CHR 0xE2, CHR 0x80, CHR 0x89],
      [CHR 0xE2, CHR 0x80, CHR 0x8A], [CHR 0xE2, CHR 0x80, CHR 0xA8],
      [CHR 0xE2, CHR 0x80, CHR 0xA9], [CHR 0xE2, CHR 0x80, CHR 0xAF],
      [CHR 0xE2, CHR 0x81, CHR 0x9F], [CHR 0xE3, CHR 0x80, CHR 0x80]]"

text \<open>A continuation byte of UTF-8, \<^verbatim>\<open>10xxxxxx\<close>.\<close>

definition isCont :: "char \<Rightarrow> bool" where
  "isCont c = (digit7 c \<and> \<not> digit6 c)"

text \<open>
  The width of the white space code point that \<open>s\<close> begins with, or ends with, and 0 when
  it begins, or ends, with something else. Decoding the first and the last code point of
  a string finds a white space code point exactly when its encoding is a prefix, or a
  suffix, of the string.
\<close>

definition spaceWidth :: "string \<Rightarrow> nat" where
  "spaceWidth s = (case find (\<lambda>t. prefix t s) spaceTokens of None \<Rightarrow> 0 | Some t \<Rightarrow> length t)"

definition spaceWidthLast :: "string \<Rightarrow> nat" where
  "spaceWidthLast s = (case find (\<lambda>t. suffix t s) spaceTokens of None \<Rightarrow> 0 | Some t \<Rightarrow> length t)"

lemma spaceTokens_nonempty: "t \<in> set spaceTokens \<Longrightarrow> t \<noteq> []"
  by (auto simp: spaceTokens_def)

lemma spaceWidth_bound: "spaceWidth s \<le> length s" "0 < spaceWidth s \<Longrightarrow> s \<noteq> []"
proof -
  show "spaceWidth s \<le> length s"
    by (auto simp: spaceWidth_def find_Some_iff prefix_length_le split: option.split)
  show "0 < spaceWidth s \<Longrightarrow> s \<noteq> []"
    by (cases s) (simp_all add: spaceWidth_def spaceTokens_def)
qed

lemma spaceWidthLast_bound:
  "spaceWidthLast s \<le> length s" "0 < spaceWidthLast s \<Longrightarrow> s \<noteq> []"
proof -
  show "spaceWidthLast s \<le> length s"
    by (auto simp: spaceWidthLast_def find_Some_iff suffix_length_le split: option.split)
  show "0 < spaceWidthLast s \<Longrightarrow> s \<noteq> []"
    by (cases s) (simp_all add: spaceWidthLast_def spaceTokens_def)
qed

text \<open>\<^verbatim>\<open>strings.TrimLeftFunc(s, unicode.IsSpace)\<close> and \<^verbatim>\<open>strings.TrimRightFunc\<close>.\<close>

function TrimLeft :: "string \<Rightarrow> string" where
  "TrimLeft s = (if spaceWidth s = 0 then s else TrimLeft (drop (spaceWidth s) s))"
  by pat_completeness auto

termination TrimLeft
proof (relation "measure length")
  fix s :: string
  assume "spaceWidth s \<noteq> 0"
  then have "0 < spaceWidth s" "s \<noteq> []" using spaceWidth_bound(2) [of s] by simp_all
  then show "(drop (spaceWidth s) s, s) \<in> measure length" by simp
qed simp

function TrimRight :: "string \<Rightarrow> string" where
  "TrimRight s =
     (if spaceWidthLast s = 0 then s else TrimRight (take (length s - spaceWidthLast s) s))"
  by pat_completeness auto

termination TrimRight
proof (relation "measure length")
  fix s :: string
  assume "spaceWidthLast s \<noteq> 0"
  then have "0 < spaceWidthLast s" "s \<noteq> []" using spaceWidthLast_bound(2) [of s] by simp_all
  then show "(take (length s - spaceWidthLast s) s, s) \<in> measure length" by simp
qed simp

declare TrimLeft.simps [simp del] TrimRight.simps [simp del]

definition TrimSpace :: "string \<Rightarrow> string" where
  "TrimSpace s = TrimRight (TrimLeft s)"

text \<open>The ASCII case mappings, and the ASCII strings.\<close>

definition lowerLetters :: string where
  "lowerLetters = ''abcdefghijklmnopqrstuvwxyz''"

definition upperLetters :: string where
  "upperLetters = ''ABCDEFGHIJKLMNOPQRSTUVWXYZ''"

definition digits :: string where
  "digits = ''0123456789''"

definition toUpperChar :: "char \<Rightarrow> char" where
  "toUpperChar c = (case map_of (zip lowerLetters upperLetters) c of Some x \<Rightarrow> x | None \<Rightarrow> c)"

definition toLowerChar :: "char \<Rightarrow> char" where
  "toLowerChar c = (case map_of (zip upperLetters lowerLetters) c of Some x \<Rightarrow> x | None \<Rightarrow> c)"

definition upperASCII :: "string \<Rightarrow> string" where
  "upperASCII s = map toUpperChar s"

definition lowerASCII :: "string \<Rightarrow> string" where
  "lowerASCII s = map toLowerChar s"

definition isASCII :: "string \<Rightarrow> bool" where
  "isASCII s = list_all (\<lambda>c. \<not> digit7 c) s"

text \<open>
  The tables of package \<^verbatim>\<open>unicode\<close> that the code reaches beyond ASCII:
  \<^verbatim>\<open>strings.Map(unicode.ToUpper, s)\<close> and \<^verbatim>\<open>strings.Map(unicode.ToLower, s)\<close> on a string
  that is not ASCII, and the width of the code point a string begins with when that is a
  letter or a digit beyond ASCII (0 when it is not).
\<close>

record unicode =
  mapToUpper :: "string \<Rightarrow> string"
  mapToLower :: "string \<Rightarrow> string"
  letterWidth :: "string \<Rightarrow> nat"

text \<open>
  \<^verbatim>\<open>strings.ToUpper\<close> and \<^verbatim>\<open>strings.ToLower\<close>: an ASCII string is mapped byte by byte,
  any other string through the tables.
\<close>

definition ToUpper :: "unicode \<Rightarrow> string \<Rightarrow> string" where
  "ToUpper u s = (if isASCII s then upperASCII s else mapToUpper u s)"

definition ToLower :: "unicode \<Rightarrow> string \<Rightarrow> string" where
  "ToLower u s = (if isASCII s then lowerASCII s else mapToLower u s)"

definition HasPrefix :: "string \<Rightarrow> string \<Rightarrow> bool" where
  "HasPrefix s p = prefix p s"

definition TrimPrefix :: "string \<Rightarrow> string \<Rightarrow> string" where
  "TrimPrefix s p = (if HasPrefix s p then drop (length p) s else s)"

text \<open>\<open>cutStr sep s\<close> cuts \<open>s\<close> around the first occurrence of \<open>sep\<close>.\<close>

fun cutStr :: "string \<Rightarrow> string \<Rightarrow> (string \<times> string) option" where
  "cutStr sep [] = (if sep = [] then Some ([], []) else None)"
| "cutStr sep (x # xs) =
     (if prefix sep (x # xs) then Some ([], drop (length sep) (x # xs))
      else map_option (\<lambda>(a, b). (x # a, b)) (cutStr sep xs))"

definition Contains :: "string \<Rightarrow> string \<Rightarrow> bool" where
  "Contains s sub = (cutStr sub s \<noteq> None)"

definition Index :: "string \<Rightarrow> string \<Rightarrow> int" where
  "Index s sub = (case cutStr sub s of None \<Rightarrow> - 1 | Some (a, b) \<Rightarrow> int (length a))"

text \<open>\<^verbatim>\<open>strings.SplitN(s, sep, 2)\<close> for a non-empty separator.\<close>

definition SplitN2 :: "string \<Rightarrow> string \<Rightarrow> string list" where
  "SplitN2 s sep = (case cutStr sep s of None \<Rightarrow> [s] | Some (a, b) \<Rightarrow> [a, b])"

text \<open>\<^verbatim>\<open>strings.Split(s, sep)\<close> for a non-empty separator.\<close>

function Split :: "string \<Rightarrow> string \<Rightarrow> string list" where
  "Split s sep =
     (if sep = [] then [s]
      else case cutStr sep s of None \<Rightarrow> [s] | Some (a, b) \<Rightarrow> a # Split b sep)"
  by pat_completeness auto

fun Join :: "string list \<Rightarrow> string \<Rightarrow> string" where
  "Join [] sep = []"
| "Join [x] sep = x"
| "Join (x # y # ys) sep = x @ sep @ Join (y # ys) sep"

text \<open>
  \<^verbatim>\<open>strings.Fields\<close>: the maximal runs of bytes between white space code points. A white
  space code point is found at every position where its encoding starts, since the first
  byte of such an encoding is never a continuation byte of another code point.
\<close>

fun fieldRun :: "string \<Rightarrow> string" where
  "fieldRun [] = []"
| "fieldRun (c # cs) = (if 0 < spaceWidth (c # cs) then [] else c # fieldRun cs)"

function Fields :: "string \<Rightarrow> string list" where
  "Fields s =
     (if s = [] then []
      else if 0 < spaceWidth s then Fields (drop (spaceWidth s) s)
      else fieldRun s # Fields (drop (length (fieldRun s)) s))"
  by pat_completeness auto

lemma cutStr_Some: "cutStr sep s = Some (a, b) \<Longrightarrow> s = a @ sep @ b"
proof (induction s arbitrary: a)
  case Nil
  then show ?case by (simp split: if_splits)
next
  case (Cons x xs)
  show ?case
  proof (cases "prefix sep (x # xs)")
    case True
    with Cons.prems have "a = []" "b = drop (length sep) (x # xs)" by simp_all
    moreover from True have "x # xs = sep @ drop (length sep) (x # xs)"
      by (metis append_eq_conv_conj prefix_def)
    ultimately show ?thesis by simp
  next
    case False
    with Cons.prems obtain a' where "cutStr sep xs = Some (a', b)" "a = x # a'"
      by auto
    with Cons.IH show ?thesis by simp
  qed
qed

lemma cutStr_length: "cutStr sep s = Some (a, b) \<Longrightarrow> length a + length sep + length b = length s"
  by (drule cutStr_Some) simp

termination Split
proof (relation "measure (\<lambda>(s, sep). length s)")
  fix s sep :: string and x2 a b
  assume "sep \<noteq> []" and "cutStr sep s = Some x2" and "(a, b) = x2"
  then have "length a + length sep + length b = length s" "sep \<noteq> []"
    by (auto dest: cutStr_length)
  then show "((b, sep), (s, sep)) \<in> measure (\<lambda>(s, sep). length s)"
    by (cases sep) simp_all
qed simp

lemma fieldRun_length: "s \<noteq> [] \<Longrightarrow> spaceWidth s = 0 \<Longrightarrow> fieldRun s \<noteq> []"
  by (cases s) (simp_all split: if_splits)

termination Fields
proof (relation "measure length")
  fix s :: string
  assume "s \<noteq> []" "0 < spaceWidth s"
  then show "(drop (spaceWidth s) s, s) \<in> measure length" by simp
next
  fix s :: string
  assume "s \<noteq> []" "\<not> 0 < spaceWidth s"
  then have "0 < length (fieldRun s)" using fieldRun_length [of s] by simp
  with \<open>s \<noteq> []\<close> show "(drop (length (fieldRun s)) s, s) \<in> measure length" by simp
qed simp

declare Fields.simps [simp del]

section \<open>Type Normalizer\<close>

text \<open>\<^verbatim>\<open>cleanType\<close> of the signature resolver (package \<^verbatim>\<open>xpz\<close>).\<close>

definition cleanType :: "string \<Rightarrow> string" where
  "cleanType rawType0 =
     (let rawType = TrimSpace rawType0 in
      if Contains rawType '':'' \<and> \<not> HasPrefix rawType ''Attribute:'' then
        (let parts = SplitN2 rawType '':'' in
         if length parts = 2 then
           (let rawType = parts ! 1; commaIdx = Index rawType '','' in
            if commaIdx \<noteq> - 1 then TrimSpace (take (nat commaIdx) rawType) else rawType)
         else rawType)
      else rawType)"

section \<open>Documentation model\<close>

text \<open>\<^verbatim>\<open>model.ParameterDoc\<close> and \<^verbatim>\<open>model.DocComment\<close>.\<close>

record ParameterDoc =
  Name :: string
  Direction :: string
  Type :: string
  Description :: string

record DocComment =
  Package :: string
  Summary :: string
  Description :: string
  Author :: string
  Created :: string
  Return :: string
  Tags :: "string list"
  Deprecated :: bool
  DeprecationNote :: string
  Parameters :: "ParameterDoc list"
  IsAutoGenerated :: bool

text \<open>The zero value of \<^verbatim>\<open>model.DocComment\<close>.\<close>

definition emptyDocComment :: DocComment where
  "emptyDocComment =
     \<lparr>Package = [], Summary = [], Description = [], Author = [], Created = [], Return = [],
      Tags = [], Deprecated = False, DeprecationNote = [], Parameters = [],
      IsAutoGenerated = False\<rparr>"

section \<open>Annotation Comment Parser\<close>

text \<open>
  The comment block pattern \<^verbatim>\<open>(?s)/\*\*\s*(.*?)\s*\*/\<close>, its first group at the leftmost
  match. A match starts at the first \<^verbatim>\<open>/**\<close> (a later one sees less text, so it matches
  only if the first does); the greedy \<^verbatim>\<open>\s*\<close> takes all white space after it, since giving
  some back cannot help to reach a \<^verbatim>\<open>*/\<close>; the lazy group then ends as early as the rest
  can be white space and \<^verbatim>\<open>*/\<close>, which is before the white space in front of the first
  \<^verbatim>\<open>*/\<close>.
\<close>

definition commentBlockFind :: "string \<Rightarrow> string option" where
  "commentBlockFind source =
     (case cutStr ''/**'' source of
        None \<Rightarrow> None
      | Some (before, r0) \<Rightarrow>
          (case cutStr ''*/'' (dropWhile reSpace r0) of
             None \<Rightarrow> None
           | Some (g, after) \<Rightarrow> Some (rev (dropWhile reSpace (rev g)))))"

definition extractCommentBlock :: "string \<Rightarrow> string" where
  "extractCommentBlock source =
     (case commentBlockFind source of
        None \<Rightarrow> []
      | Some block \<Rightarrow>
          Join (map (\<lambda>line. TrimSpace (TrimPrefix (TrimSpace line) ''*''))
                    (Split block [CHR 0x0A])) [CHR 0x0A])"

definition parseParameter :: "unicode \<Rightarrow> string \<Rightarrow> ParameterDoc option" where
  "parseParameter u v =
     (let parts = SplitN2 v '' - '';
          paramPart = TrimSpace (parts ! 0);
          description = (if length parts > 1 then TrimSpace (parts ! 1) else []);
          tokens = Fields paramPart
      in if length tokens < 2 then None
         else
           (let direction = ToUpper u (tokens ! 1) in
            if direction = ''IN'' \<or> direction = ''OUT'' \<or> direction = ''INOUT'' then
              Some \<lparr>Name = tokens ! 0, Direction = direction,
                    Type = (if length tokens > 2 then tokens ! 2 else []),
                    Description = description\<rparr>
            else
              Some \<lparr>Name = tokens ! 0, Direction = ''IN'', Type = tokens ! 1,
                    Description = description\<rparr>))"

definition parseTag :: "unicode \<Rightarrow> string \<Rightarrow> DocComment \<Rightarrow> DocComment" where
  "parseTag u line doc =
     (let parts = SplitN2 line '' '';
          tag = parts ! 0;
          v = (if length parts > 1 then TrimSpace (parts ! 1) else [])
      in if tag = ''@package'' then doc\<lparr>Package := v\<rparr>
         else if tag = ''@summary'' then doc\<lparr>Summary := v\<rparr>
         else if tag = ''@description'' then doc\<lparr>DocComment.Description := v\<rparr>
         else if tag = ''@author'' then doc\<lparr>Author := v\<rparr>
         else if tag = ''@created'' then doc\<lparr>Created := v\<rparr>
         else if tag = ''@param'' then
           (case parseParameter u v of
              None \<Rightarrow> doc
            | Some param \<Rightarrow> doc\<lparr>DocComment.Parameters := DocComment.Parameters doc @ [param]\<rparr>)
         else if tag = ''@return'' then doc\<lparr>Return := v\<rparr>
         else if tag = ''@tag'' then doc\<lparr>Tags := Tags doc @ [v]\<rparr>
         else if tag = ''@deprecated'' then doc\<lparr>Deprecated := True, DeprecationNote := v\<rparr>
         else doc)"

text \<open>The body of the loop of \<^verbatim>\<open>Parse\<close> over the lines of the block.\<close>

definition parseLine :: "unicode \<Rightarrow> DocComment \<Rightarrow> string \<Rightarrow> DocComment" where
  "parseLine u doc line0 =
     (let line = TrimSpace line0 in
      if line = [] then doc
      else if HasPrefix line ''@'' then parseTag u line doc
      else doc)"

text \<open>A Go \<^verbatim>\<open>error\<close> value; \<^verbatim>\<open>nil\<close> is \<open>None\<close>.\<close>

datatype GoError = GoError string

definition Parse :: "unicode \<Rightarrow> string \<Rightarrow> DocComment option \<times> GoError option" where
  "Parse u sourceCode =
     (let commentBlock = extractCommentBlock sourceCode in
      if commentBlock = [] then (None, None)
      else (Some (foldl (parseLine u) emptyDocComment (Split commentBlock [CHR 0x0A])), None))"



section \<open>Tree Query Facade\<close>

text \<open>
  The parsed document of package \<^verbatim>\<open>xmlquery\<close>: an element has a local name, attributes
  and children; text and CDATA sections are text nodes. The document node is an element
  with the empty name. Comments and processing instructions are left out of the tree.
\<close>

datatype xnode = Element string "(string \<times> string) list" "xnode list" | TextNode string

fun children :: "xnode \<Rightarrow> xnode list" where
  "children (Element n as cs) = cs"
| "children (TextNode d) = []"

fun attrs :: "xnode \<Rightarrow> (string \<times> string) list" where
  "attrs (Element n as cs) = as"
| "attrs (TextNode d) = []"

fun isElement :: "string \<Rightarrow> xnode \<Rightarrow> bool" where
  "isElement name (Element n as cs) = (n = name)"
| "isElement name (TextNode d) = False"

fun InnerText :: "xnode \<Rightarrow> string" where
  "InnerText (Element n as cs) = concat (map InnerText cs)"
| "InnerText (TextNode d) = d"

text \<open>The nodes below a node, in document order.\<close>

fun descendants :: "xnode \<Rightarrow> xnode list" where
  "descendants (Element n as cs) = concat (map (\<lambda>c. c # descendants c) cs)"
| "descendants (TextNode d) = []"

text \<open>
  The path expressions the code uses, step by step: \<^verbatim>\<open>//name\<close> and
  \<^verbatim>\<open>//name[@a='v']\<close> select elements below the node the query starts from (the
  navigator of \<^verbatim>\<open>xmlquery\<close> takes that node as its root), \<^verbatim>\<open>name\<close> selects child
  elements.
\<close>

datatype xstep = Descendant string "(string \<times> string) option" | Child string

fun evalStep :: "xstep \<Rightarrow> xnode \<Rightarrow> xnode list" where
  "evalStep (Descendant name None) n = filter (isElement name) (descendants n)"
| "evalStep (Descendant name (Some av)) n =
     filter (\<lambda>d. isElement name d \<and> av \<in> set (attrs d)) (descendants n)"
| "evalStep (Child name) n = filter (isElement name) (children n)"

definition Find :: "xnode \<Rightarrow> xstep list \<Rightarrow> xnode list" where
  "Find node path = foldl (\<lambda>nodes st. concat (map (evalStep st) nodes)) [node] path"

definition FindOne :: "xnode \<Rightarrow> xstep list \<Rightarrow> xnode option" where
  "FindOne node path = (case Find node path of [] \<Rightarrow> None | n # ns \<Rightarrow> Some n)"

definition GetText :: "xnode \<Rightarrow> xstep list \<Rightarrow> string" where
  "GetText node path =
     (case FindOne node path of None \<Rightarrow> [] | Some found \<Rightarrow> TrimSpace (InnerText found))"



definition GXTypeProcedure :: string where
  "GXTypeProcedure = ''84a12160-f59b-4ad7-a683-ea4481ac23e9''"

definition GXPartSourceCode :: string where
  "GXPartSourceCode = ''528d1c06-a9c2-420d-bd35-21dca83f12ff''"

definition GXPartRules :: string where
  "GXPartRules = ''9b0a32a3-de6d-4be1-a4dd-1b85d3741534''"

definition GXPartVariables :: string where
  "GXPartVariables = ''e4c4ade7-53f0-4a56-bdfd-843735b66f47''"

section \<open>The regular expressions of the resolver\<close>

text \<open>
  Each pattern is embedded as the matcher the leftmost-first semantics of package
  \<^verbatim>\<open>regexp\<close> gives it. Under \<^verbatim>\<open>(?i)\<close> a letter of \<^verbatim>\<open>parm\<close>, \<^verbatim>\<open>in\<close>, \<^verbatim>\<open>out\<close>
  matches its two ASCII cases only (none of them is \<^verbatim>\<open>k\<close> or \<^verbatim>\<open>s\<close>); the dot does not
  match a newline; \<^verbatim>\<open>\b\<close> looks at the ASCII word characters.
\<close>

definition ciPrefix :: "string \<Rightarrow> string \<Rightarrow> bool" where
  "ciPrefix lit s = (length lit \<le> length s \<and> lowerASCII (take (length lit) s) = lit)"

definition isWordChar :: "char \<Rightarrow> bool" where
  "isWordChar c = (c \<in> set lowerLetters \<or> c \<in> set upperLetters \<or> c \<in> set digits \<or> c = CHR ''_'')"

text \<open>
  \<^verbatim>\<open>parmRegex = (?i)parm\s*\((.*?)\)\<close> at the start of \<open>s\<close>: the group and the text after
  the match. The lazy group ends at the first closing parenthesis, which has to come
  before any newline.
\<close>

definition parmAt :: "string \<Rightarrow> (string \<times> string) option" where
  "parmAt s =
     (if ciPrefix ''parm'' s then
        (case dropWhile reSpace (drop 4 s) of
           [] \<Rightarrow> None
         | c # r \<Rightarrow>
             if c = CHR ''('' then
               (let g = takeWhile (\<lambda>x. x \<noteq> CHR '')'' \<and> x \<noteq> CHR 0x0A) r in
                case drop (length g) r of
                  [] \<Rightarrow> None
                | e # rest \<Rightarrow> if e = CHR '')'' then Some (g, rest) else None)
             else None)
      else None)"

text \<open>\<^verbatim>\<open>parmRegex.FindStringSubmatch\<close>: the group of the leftmost match.\<close>

fun parmRegexFind :: "string \<Rightarrow> string option" where
  "parmRegexFind [] = None"
| "parmRegexFind (c # cs) =
     (case parmAt (c # cs) of Some (g, rest) \<Rightarrow> Some g | None \<Rightarrow> parmRegexFind cs)"

text \<open>
  The name after a \<^verbatim>\<open>$\<close> of a replacement template (\<^verbatim>\<open>extract\<close> of package
  \<^verbatim>\<open>regexp\<close>): the name, its number or \<open>- 1\<close>, and the rest of the template. The name
  is the longest run of letters, digits and underscores: \<open>nameLength\<close> is its length in
  bytes, an ASCII byte counted by itself and a code point beyond ASCII through the table.
\<close>

function nameLength :: "unicode \<Rightarrow> string \<Rightarrow> nat" where
  "nameLength u [] = 0"
| "nameLength u (c # cs) =
     (if \<not> digit7 c then (if isWordChar c then 1 + nameLength u cs else 0)
      else
        (let w = min (letterWidth u (c # cs)) (length (c # cs)) in
         if w = 0 then 0 else w + nameLength u (drop w (c # cs))))"
  by pat_completeness auto

termination nameLength
  by (relation "measure (\<lambda>(u, s). length s)") auto

fun digitValue :: "char \<Rightarrow> int" where
  "digitValue c = int (length (takeWhile (\<lambda>d. d \<noteq> c) digits))"

fun nameNumber :: "int \<Rightarrow> string \<Rightarrow> int" where
  "nameNumber num [] = num"
| "nameNumber num (c # cs) =
     (if c \<notin> set digits \<or> num \<ge> 100000000 then - 1
      else nameNumber (num * 10 + digitValue c) cs)"

definition extractName :: "unicode \<Rightarrow> string \<Rightarrow> (string \<times> int \<times> string) option" where
  "extractName u str0 =
     (if str0 = [] then None
      else
        (let brace = (hd str0 = CHR ''{'');
             str = (if brace then tl str0 else str0);
             i = nameLength u str;
             name = take i str
         in if i = 0 then None
            else if brace \<and> (i \<ge> length str \<or> str ! i \<noteq> CHR ''}'') then None
            else
              (let j = (if brace then i + 1 else i);
                   num = nameNumber 0 name;
                   num = (if hd name = CHR ''0'' \<and> length name > 1 then - 1 else num)
               in Some (name, num, drop j str))))"

text \<open>
  \<^verbatim>\<open>expand\<close> of package \<^verbatim>\<open>regexp\<close> for \<^verbatim>\<open>parmRegex\<close>, which has the whole match
  \<open>m0\<close> and one unnamed group \<open>m1\<close>: \<^verbatim>\<open>$$\<close> is a dollar sign, \<^verbatim>\<open>$0\<close> and \<^verbatim>\<open>$1\<close> are the
  match and the group, any other well-formed reference is empty, and a \<^verbatim>\<open>$\<close> that starts
  no reference stays.
\<close>

function expand :: "unicode \<Rightarrow> string \<Rightarrow> string \<Rightarrow> string \<Rightarrow> string" where
  "expand u template m0 m1 =
     (case cutStr ''$'' template of
        None \<Rightarrow> template
      | Some (before, after) \<Rightarrow>
          before @
          (if after \<noteq> [] \<and> hd after = CHR ''$'' then CHR ''$'' # expand u (tl after) m0 m1
           else
             (case extractName u after of
                None \<Rightarrow> CHR ''$'' # expand u after m0 m1
              | Some (name, num, rest) \<Rightarrow>
                  (if num = 0 then m0 else if num = 1 then m1 else []) @ expand u rest m0 m1)))"
  by pat_completeness auto

lemma extractName_length: "extractName u s = Some (name, num, rest) \<Longrightarrow> length rest \<le> length s"
  by (auto simp: extractName_def Let_def split: if_splits)

termination expand
proof (relation "measure (\<lambda>(u, t, m0, m1). length t)")
  fix u :: unicode and template m0 m1 :: string and x2 before after
  assume c: "cutStr ''$'' template = Some x2" "(before, after) = x2"
  then have len: "length before + 1 + length after = length template"
    by (auto dest: cutStr_length)
  {
    assume "after \<noteq> [] \<and> hd after = CHR ''$''"
    with len show "((u, tl after, m0, m1), (u, template, m0, m1)) \<in> measure (\<lambda>(u, t, m0, m1). length t)"
      by simp
  next
    assume "\<not> (after \<noteq> [] \<and> hd after = CHR ''$'')" "extractName u after = None"
    with len show "((u, after, m0, m1), (u, template, m0, m1)) \<in> measure (\<lambda>(u, t, m0, m1). length t)"
      by simp
  next
    fix x2a name y num rest
    assume "extractName u after = Some x2a" "(name, y) = x2a" "(num, rest) = y"
    then have "length rest \<le> length after" by (auto dest: extractName_length)
    with len show "((u, rest, m0, m1), (u, template, m0, m1)) \<in> measure (\<lambda>(u, t, m0, m1). length t)"
      by simp
  }
qed simp

declare expand.simps [simp del]

text \<open>\<^verbatim>\<open>parmRegex.ReplaceAllString(s, repl)\<close>.\<close>

function parmRegexReplaceAll :: "unicode \<Rightarrow> string \<Rightarrow> string \<Rightarrow> string" where
  "parmRegexReplaceAll u repl [] = []"
| "parmRegexReplaceAll u repl (c # cs) =
     (case parmAt (c # cs) of
        Some (g, rest) \<Rightarrow>
          expand u repl (take (length (c # cs) - length rest) (c # cs)) g
            @ parmRegexReplaceAll u repl rest
      | None \<Rightarrow> c # parmRegexReplaceAll u repl cs)"
  by pat_completeness auto

lemma parmAt_length: "parmAt s = Some (g, rest) \<Longrightarrow> length rest < length s"
proof -
  assume a: "parmAt s = Some (g, rest)"
  then obtain r where r: "dropWhile reSpace (drop 4 s) = CHR ''('' # r"
    by (auto simp: parmAt_def split: if_splits list.splits)
  with a have "drop (length (takeWhile (\<lambda>x. x \<noteq> CHR '')'' \<and> x \<noteq> CHR 0x0A) r)) r = CHR '')'' # rest"
    by (auto simp: parmAt_def Let_def split: if_splits list.splits)
  then have "length (drop (length (takeWhile (\<lambda>x. x \<noteq> CHR '')'' \<and> x \<noteq> CHR 0x0A) r)) r)
                = Suc (length rest)"
    by simp
  then have "length rest < length r" by simp
  moreover have "length (dropWhile reSpace (drop 4 s)) \<le> length s"
    by (rule le_trans [OF length_dropWhile_le]) simp
  ultimately show ?thesis using r by simp
qed

termination parmRegexReplaceAll
proof (relation "measure (\<lambda>(u, repl, s). length s)")
  fix u :: unicode and repl :: string and c cs x2 g rest
  assume "parmAt (c # cs) = Some x2" "(g, rest) = x2"
  then have "length rest < length (c # cs)" by (auto dest: parmAt_length)
  then show "((u, repl, rest), (u, repl, c # cs)) \<in> measure (\<lambda>(u, repl, s). length s)" by simp
qed simp_all

text \<open>
  \<^verbatim>\<open>paramRegex = (?i)^(in|out|inout)\s*:\s*&(.+)$\<close>: the two groups. The alternatives
  are tried in their order; the name is what follows the ampersand, not empty and
  without a newline.
\<close>

definition paramWith :: "string \<Rightarrow> string \<Rightarrow> (string \<times> string) option" where
  "paramWith dir s =
     (if ciPrefix dir s then
        (case dropWhile reSpace (drop (length dir) s) of
           [] \<Rightarrow> None
         | c # r \<Rightarrow>
             if c = CHR '':'' then
               (case dropWhile reSpace r of
                  [] \<Rightarrow> None
                | a # name \<Rightarrow>
                    if a = CHR ''&'' \<and> name \<noteq> [] \<and> CHR 0x0A \<notin> set name
                    then Some (take (length dir) s, name) else None)
             else None)
      else None)"

definition paramRegexFind :: "string \<Rightarrow> (string \<times> string) option" where
  "paramRegexFind s =
     (case paramWith ''in'' s of
        Some m \<Rightarrow> Some m
      | None \<Rightarrow>
          (case paramWith ''out'' s of
             Some m \<Rightarrow> Some m
           | None \<Rightarrow> paramWith ''inout'' s))"

text \<open>
  \<^verbatim>\<open>directionRegex = (?i)\b(in|out|inout)\s*:\<close> at the start of \<open>s\<close>, the word boundary
  already checked: the text after the match.
\<close>

definition dirColonWith :: "string \<Rightarrow> string \<Rightarrow> string option" where
  "dirColonWith dir s =
     (if ciPrefix dir s then
        (case dropWhile reSpace (drop (length dir) s) of
           [] \<Rightarrow> None
         | c # rest \<Rightarrow> if c = CHR '':'' then Some rest else None)
      else None)"

definition dirColonAt :: "string \<Rightarrow> string option" where
  "dirColonAt s =
     (case dirColonWith ''in'' s of
        Some rest \<Rightarrow> Some rest
      | None \<Rightarrow>
          (case dirColonWith ''out'' s of
             Some rest \<Rightarrow> Some rest
           | None \<Rightarrow> dirColonWith ''inout'' s))"

text \<open>
  \<^verbatim>\<open>directionMatch.FindString\<close> with \<^verbatim>\<open>directionMatch = (?i)\b(in|out|inout)\<close>; the flag
  says whether the character before is a word character. The first alternative that
  fits is the match, so \<^verbatim>\<open>in\<close> is found in \<^verbatim>\<open>inout\<close>.
\<close>

fun directionMatchFind :: "bool \<Rightarrow> string \<Rightarrow> string" where
  "directionMatchFind pw [] = []"
| "directionMatchFind pw (c # cs) =
     (if \<not> pw \<and> ciPrefix ''in'' (c # cs) then take 2 (c # cs)
      else if \<not> pw \<and> ciPrefix ''out'' (c # cs) then take 3 (c # cs)
      else if \<not> pw \<and> ciPrefix ''inout'' (c # cs) then take 5 (c # cs)
      else directionMatchFind (isWordChar c) cs)"

text \<open>
  \<^verbatim>\<open>directionRegex.ReplaceAllStringFunc\<close> with the function of \<^verbatim>\<open>parseParmString\<close>,
  which puts the lower-cased direction found in the match and a colon.
\<close>

function directionReplace :: "unicode \<Rightarrow> bool \<Rightarrow> string \<Rightarrow> string" where
  "directionReplace u pw [] = []"
| "directionReplace u pw (c # cs) =
     (case (if pw then None else dirColonAt (c # cs)) of
        Some rest \<Rightarrow>
          ToLower u (directionMatchFind False (take (length (c # cs) - length rest) (c # cs)))
            @ '':'' @ directionReplace u False rest
      | None \<Rightarrow> c # directionReplace u (isWordChar c) cs)"
  by pat_completeness auto

lemma dirColonWith_length: "dirColonWith d s = Some rest \<Longrightarrow> length rest < length s"
proof -
  assume "dirColonWith d s = Some rest"
  then have "dropWhile reSpace (drop (length d) s) = CHR '':'' # rest"
    by (auto simp: dirColonWith_def split: if_splits list.splits)
  moreover have "length (dropWhile reSpace (drop (length d) s)) \<le> length s"
    by (rule le_trans [OF length_dropWhile_le]) simp
  ultimately show ?thesis by simp
qed

lemma dirColonAt_length: "dirColonAt s = Some rest \<Longrightarrow> length rest < length s"
  by (auto simp: dirColonAt_def split: option.splits dest: dirColonWith_length)

termination directionReplace
proof (relation "measure (\<lambda>(u, pw, s). length s)")
  fix u :: unicode and pw :: bool and c cs rest
  assume "(if pw then None else dirColonAt (c # cs)) = Some rest"
  then have "dirColonAt (c # cs) = Some rest" by (simp split: if_splits)
  then have "length rest < length (c # cs)" by (rule dirColonAt_length)
  then show "((u, False, rest), (u, pw, c # cs)) \<in> measure (\<lambda>(u, pw, s). length s)" by simp
qed simp_all

text \<open>\<^verbatim>\<open>colonSpaceRegex = :\s+&\<close> and its \<^verbatim>\<open>ReplaceAllString(s, ":&")\<close>.\<close>

definition colonSpaceAt :: "string \<Rightarrow> string option" where
  "colonSpaceAt s =
     (case s of
        [] \<Rightarrow> None
      | c # r \<Rightarrow>
          if c = CHR '':'' \<and> r \<noteq> [] \<and> reSpace (hd r) then
            (case dropWhile reSpace r of
               [] \<Rightarrow> None
             | a # rest \<Rightarrow> if a = CHR ''&'' then Some rest else None)
          else None)"

function colonSpaceReplace :: "string \<Rightarrow> string" where
  "colonSpaceReplace [] = []"
| "colonSpaceReplace (c # cs) =
     (case colonSpaceAt (c # cs) of
        Some rest \<Rightarrow> '':&'' @ colonSpaceReplace rest
      | None \<Rightarrow> c # colonSpaceReplace cs)"
  by pat_completeness auto

lemma colonSpaceAt_length: "colonSpaceAt s = Some rest \<Longrightarrow> length rest < length s"
proof -
  assume a: "colonSpaceAt s = Some rest"
  then obtain r where s: "s = CHR '':'' # r" and "dropWhile reSpace r = CHR ''&'' # rest"
    by (auto simp: colonSpaceAt_def split: list.splits if_splits)
  moreover have "length (dropWhile reSpace r) \<le> length r" by (rule length_dropWhile_le)
  ultimately show ?thesis by simp
qed

termination colonSpaceReplace
proof (relation "measure length")
  fix c cs rest
  assume "colonSpaceAt (c # cs) = Some rest"
  then have "length rest < length (c # cs)" by (rule colonSpaceAt_length)
  then show "(rest, c # cs) \<in> measure length" by simp
qed simp_all

text \<open>\<^verbatim>\<open>commaSpaceRegex = ,\s*\<close> and its \<^verbatim>\<open>ReplaceAllString(s, ", ")\<close>.\<close>

function commaSpaceReplace :: "string \<Rightarrow> string" where
  "commaSpaceReplace [] = []"
| "commaSpaceReplace (c # cs) =
     (if c = CHR '','' then '', '' @ commaSpaceReplace (dropWhile reSpace cs)
      else c # commaSpaceReplace cs)"
  by pat_completeness auto

termination commaSpaceReplace
proof (relation "measure length")
  fix c :: char and cs
  have "length (dropWhile reSpace cs) \<le> length cs" by (rule length_dropWhile_le)
  then show "(dropWhile reSpace cs, c # cs) \<in> measure length" by simp
qed simp_all

section \<open>Signature Resolver\<close>

text \<open>
  A slice that the code compares with \<^verbatim>\<open>nil\<close> is a \<^typ>\<open>'a list option\<close>: \<open>None\<close> is
  the nil slice, \<open>Some []\<close> an empty slice that is not nil. \<^verbatim>\<open>append\<close> to a nil slice
  gives a slice that is not nil.
\<close>

definition appendSlice :: "'a list option \<Rightarrow> 'a \<Rightarrow> 'a list option" where
  "appendSlice sl x = (case sl of None \<Rightarrow> Some [x] | Some xs \<Rightarrow> Some (xs @ [x]))"

definition lenSlice :: "'a list option \<Rightarrow> nat" where
  "lenSlice sl = (case sl of None \<Rightarrow> 0 | Some xs \<Rightarrow> length xs)"

definition elems :: "'a list option \<Rightarrow> 'a list" where
  "elems sl = (case sl of None \<Rightarrow> [] | Some xs \<Rightarrow> xs)"

record Signature =
  Parameters :: "ParameterDoc list option"
  RawSignature :: string
  ExtractionMode :: string

text \<open>The zero value \<^verbatim>\<open>Signature{}\<close>.\<close>

definition emptySignature :: Signature where
  "emptySignature = \<lparr>Parameters = None, RawSignature = [], ExtractionMode = []\<rparr>"

text \<open>
  The path expressions of the resolver: \<^verbatim>\<open>//Part[@type='GXPartRules']/Source\<close>,
  \<^verbatim>\<open>//Part[@type='GXPartVariables']\<close>, \<^verbatim>\<open>//Variable\<close> and \<^verbatim>\<open>Properties/Property\<close>.
\<close>

definition rulesSourcePath :: "xstep list" where
  "rulesSourcePath = [Descendant ''Part'' (Some (''type'', GXPartRules)), Child ''Source'']"

definition variablesPartPath :: "xstep list" where
  "variablesPartPath = [Descendant ''Part'' (Some (''type'', GXPartVariables))]"

definition variablePath :: "xstep list" where
  "variablePath = [Descendant ''Variable'' None]"

definition propertyPath :: "xstep list" where
  "propertyPath = [Child ''Properties'', Child ''Property'']"

text \<open>The first loop of \<^verbatim>\<open>parseParmString\<close>: the lines that are not comments.\<close>

definition activeSource :: "string \<Rightarrow> string" where
  "activeSource source =
     Join (filter (\<lambda>line. \<not> HasPrefix (TrimSpace line) ''//'') (Split source [CHR 0x0A]))
          [CHR 0x0A]"

text \<open>The body of the second loop of \<^verbatim>\<open>parseParmString\<close>, over the comma-separated parts.\<close>

definition parmPart ::
  "unicode \<Rightarrow> ParameterDoc list option \<Rightarrow> string \<Rightarrow> ParameterDoc list option" where
  "parmPart u params part0 =
     (let part = TrimSpace part0 in
      if part = [] then params
      else
        (case paramRegexFind part of
           Some (dir, name) \<Rightarrow>
             appendSlice params
               \<lparr>Name = TrimSpace name, Direction = ToUpper u dir, Type = [], Description = []\<rparr>
         | None \<Rightarrow> params))"

definition parseParmString :: "unicode \<Rightarrow> string \<Rightarrow> string \<Rightarrow> Signature" where
  "parseParmString u source0 procedureName =
     (let source = activeSource source0 in
      case parmRegexFind source of
        None \<Rightarrow> emptySignature
      | Some paramsStr \<Rightarrow>
          if TrimSpace paramsStr = [] then
            \<lparr>Parameters = Some [], RawSignature = procedureName @ ''();'', ExtractionMode = []\<rparr>
          else
            (let parts = Split paramsStr '','';
                 params = foldl (parmPart u) None parts;
                 rawSig = parmRegexReplaceAll u (procedureName @ ''('' @ paramsStr @ '')'') source;
                 rawSig = directionReplace u False rawSig;
                 rawSig = colonSpaceReplace rawSig;
                 rawSig = commaSpaceReplace rawSig;
                 rawSig = TrimSpace rawSig
             in \<lparr>Parameters = params, RawSignature = rawSig, ExtractionMode = []\<rparr>))"

definition buildRawSignature :: "unicode \<Rightarrow> string \<Rightarrow> ParameterDoc list \<Rightarrow> string" where
  "buildRawSignature u procedureName params =
     (if length params = 0 then procedureName @ ''();''
      else procedureName @ ''(''
             @ Join (map (\<lambda>p. ToLower u (Direction p) @ '':&'' @ Name p) params) '', ''
             @ '');'')"

definition extractFromParmRule :: "unicode \<Rightarrow> xnode \<Rightarrow> string \<Rightarrow> Signature" where
  "extractFromParmRule u objNode procedureName =
     (let source = GetText objNode rulesSourcePath
      in if source = [] then emptySignature else parseParmString u source procedureName)"

text \<open>
  The local variables \<^verbatim>\<open>isParm\<close>, \<^verbatim>\<open>name\<close>, \<^verbatim>\<open>varType\<close> and \<^verbatim>\<open>description\<close>
  of the property scan of \<^verbatim>\<open>extractFromIsParmVariables\<close>.
\<close>

record varScan =
  scan_isParm :: bool
  scan_name :: string
  scan_varType :: string
  scan_description :: string

definition scanProperty :: "varScan \<Rightarrow> xnode \<Rightarrow> varScan" where
  "scanProperty st prop =
     (let propName = GetText prop [Child ''Name''];
          propValue = GetText prop [Child ''Value'']
      in if propName = ''IsParm'' then st\<lparr>scan_isParm := (propValue = ''True'' \<or> propValue = ''true'')\<rparr>
         else if propName = ''Name'' then st\<lparr>scan_name := propValue\<rparr>
         else if propName = ''Description'' then st\<lparr>scan_description := propValue\<rparr>
         else if propName = ''ATTCUSTOMTYPE'' then st\<lparr>scan_varType := cleanType propValue\<rparr>
         else if propName = ''idBasedOn'' then
           (if scan_varType st = [] \<and> HasPrefix propValue ''Attribute:'' then st\<lparr>scan_varType := ''-''\<rparr>
            else st)
         else st)"

definition scanVariable :: "xnode \<Rightarrow> varScan" where
  "scanVariable varNode =
     foldl scanProperty \<lparr>scan_isParm = False, scan_name = [], scan_varType = [], scan_description = []\<rparr>
       (Find varNode propertyPath)"

definition isParmVariable :: "ParameterDoc list option \<Rightarrow> xnode \<Rightarrow> ParameterDoc list option" where
  "isParmVariable params varNode =
     (let st = scanVariable varNode in
      if scan_isParm st \<and> scan_name st \<noteq> [] then
        appendSlice params
          \<lparr>Name = scan_name st, Direction = ''IN'', Type = scan_varType st,
            Description = scan_description st\<rparr>
      else params)"

definition extractFromIsParmVariables :: "unicode \<Rightarrow> xnode \<Rightarrow> string \<Rightarrow> Signature" where
  "extractFromIsParmVariables u objNode procedureName =
     (case FindOne objNode variablesPartPath of
        None \<Rightarrow> emptySignature
      | Some variablesPart \<Rightarrow>
          (let variables = Find variablesPart variablePath;
               params = foldl isParmVariable None variables
           in if lenSlice params = 0 then emptySignature
              else \<lparr>Parameters = params,
                    RawSignature = buildRawSignature u procedureName (elems params),
                    ExtractionMode = []\<rparr>))"

definition ExtractProcedureSignature :: "unicode \<Rightarrow> xnode \<Rightarrow> string \<Rightarrow> Signature" where
  "ExtractProcedureSignature u objNode procedureName =
     (let sig = extractFromParmRule u objNode procedureName in
      if Parameters sig \<noteq> None then sig\<lparr>ExtractionMode := ''ParmRule''\<rparr>
      else
        (let sig = extractFromIsParmVariables u objNode procedureName in
         if Parameters sig \<noteq> None then sig\<lparr>ExtractionMode := ''IsParm''\<rparr>
         else \<lparr>Parameters = Some [], RawSignature = procedureName @ ''();'',
               ExtractionMode = ''None''\<rparr>))"

section \<open>Metadata Enricher\<close>



text \<open>The body of the last loop of \<^verbatim>\<open>EnrichWithVariableMetadata\<close>: fill what is empty.\<close>

definition enrichParam :: "(string \<rightharpoonup> string \<times> string) \<Rightarrow> ParameterDoc \<Rightarrow> ParameterDoc" where
  "enrichParam varMap p =
     (case varMap (Name p) of
        None \<Rightarrow> p
      | Some (metaType, metaDescription) \<Rightarrow>
          (let p = (if Type p = [] then p\<lparr>Type := metaType\<rparr> else p) in
           if ParameterDoc.Description p = [] then p\<lparr>ParameterDoc.Description := metaDescription\<rparr>
           else p))"



text \<open>
  What one comma-separated segment of the argument list contributes: the parameter of
  the segment when its trimmed text matches the pattern, nothing otherwise.
\<close>

definition segmentParameter :: "unicode \<Rightarrow> string \<Rightarrow> ParameterDoc option" where
  "segmentParameter u seg =
     (case paramRegexFind (TrimSpace seg) of
        None \<Rightarrow> None
      | Some (dir, name) \<Rightarrow>
          Some \<lparr>Name = TrimSpace name, Direction = ToUpper u dir, Type = [], Description = []\<rparr>)"

text \<open>A direction keyword in any letter case.\<close>

definition isDirection :: "string \<Rightarrow> bool" where
  "isDirection dir =
     (lowerASCII dir = ''in'' \<or> lowerASCII dir = ''out'' \<or> lowerASCII dir = ''inout'')"

section \<open>Object Assembler\<close>

text \<open>
  The structures \<^verbatim>\<open>parseGXExportFile\<close> decodes the export file into, and
  \<^verbatim>\<open>model.GXObject\<close>, which it produces.
\<close>

record GXProperty2 =
  Name :: string
  Value :: string

record GXVariable =
  Name :: string
  Properties :: "GXProperty2 list"

record GXPart =
  Type :: string
  Source :: string
  Variables :: "GXVariable list"

record GXObjectXML =
  Name :: string
  Type :: string
  Description :: string
  Parent :: string
  ParentType :: string
  Parts :: "GXPart list"

record GXObject =
  Name :: string
  Type :: string
  Path :: string
  SourceCode :: string
  ParmSignature :: string
  XMLDescription :: string
  Documentation :: "DocComment option"

definition LastIndex :: "string \<Rightarrow> string \<Rightarrow> int" where
  "LastIndex s sub =
     (case cutStr (rev sub) (rev s) of None \<Rightarrow> - 1 | Some (a, b) \<Rightarrow> int (length b))"

fun extractParmSignature :: "GXPart list \<Rightarrow> string \<Rightarrow> string" where
  "extractParmSignature [] procedureName = []"
| "extractParmSignature (part # parts) procedureName =
     (if GXPart.Type part = GXPartRules then
        (let signature = TrimSpace (Source part) in
         if HasPrefix signature ''Parm('' then
           procedureName @ ''('' @ TrimPrefix signature ''Parm(''
         else signature)
      else extractParmSignature parts procedureName)"

fun extractProcedureSource :: "GXPart list \<Rightarrow> string" where
  "extractProcedureSource [] = []"
| "extractProcedureSource (part # parts) =
     (if GXPart.Type part = GXPartSourceCode then TrimSpace (Source part)
      else extractProcedureSource parts)"

text \<open>The body of the loop of \<^verbatim>\<open>parseParmParameters\<close>.\<close>

definition parmParameter :: "unicode \<Rightarrow> ParameterDoc list \<Rightarrow> string \<Rightarrow> ParameterDoc list" where
  "parmParameter u params part0 =
     (let part = TrimSpace part0 in
      if part = [] then params
      else
        (let colonIdx = Index part '':'' in
         if colonIdx \<noteq> - 1 then
           (let direction = ToUpper u (TrimSpace (take (nat colonIdx) part));
                name = TrimSpace (drop (nat (colonIdx + 1)) part);
                name = TrimPrefix name ''&''
            in params @ [\<lparr>ParameterDoc.Name = name, Direction = direction, Type = [],
                           Description = []\<rparr>])
         else params))"

definition parseParmParameters :: "unicode \<Rightarrow> string \<Rightarrow> ParameterDoc list" where
  "parseParmParameters u parmSignature =
     (if parmSignature = [] then []
      else
        (let start = Index parmSignature ''('';
             end = LastIndex parmSignature '')''
         in if start = - 1 \<or> end = - 1 \<or> start \<ge> end then []
            else
              (let paramsStr = drop (nat (start + 1)) (take (nat end) parmSignature) in
               if TrimSpace paramsStr = [] then []
               else foldl (parmParameter u) [] (Split paramsStr '',''))))"

text \<open>The property scan of \<^verbatim>\<open>enrichParametersWithVariableInfo\<close>: description and type.\<close>

definition scanInfoProperty :: "string \<times> string \<Rightarrow> GXProperty2 \<Rightarrow> string \<times> string" where
  "scanInfoProperty st prop =
     (if GXProperty2.Name prop = ''Description'' then (Value prop, snd st)
      else if GXProperty2.Name prop = ''ATTCUSTOMTYPE'' then
        (let colonIdx = Index (Value prop) '':'' in
         if colonIdx \<noteq> - 1 then
           (let typ = TrimSpace (drop (nat (colonIdx + 1)) (Value prop));
                commaIdx = Index typ '',''
            in if commaIdx \<noteq> - 1 then (fst st, TrimSpace (take (nat commaIdx) typ))
               else (fst st, typ))
         else (fst st, Value prop))
      else st)"

definition addVariableInfo ::
  "(string \<rightharpoonup> string \<times> string) \<Rightarrow> GXVariable \<Rightarrow> (string \<rightharpoonup> string \<times> string)" where
  "addVariableInfo varMap v =
     varMap(GXVariable.Name v \<mapsto> foldl scanInfoProperty ([], []) (Properties v))"

definition enrichParamInfo :: "(string \<rightharpoonup> string \<times> string) \<Rightarrow> ParameterDoc \<Rightarrow> ParameterDoc" where
  "enrichParamInfo varMap p =
     (case varMap (ParameterDoc.Name p) of
        None \<Rightarrow> p
      | Some (infoDescription, infoType) \<Rightarrow>
          (let p = (if ParameterDoc.Description p = []
                    then p\<lparr>ParameterDoc.Description := infoDescription\<rparr> else p)
           in if ParameterDoc.Type p = [] then p\<lparr>ParameterDoc.Type := infoType\<rparr> else p))"

fun variablesOf :: "GXPart list \<Rightarrow> GXVariable list" where
  "variablesOf [] = []"
| "variablesOf (part # parts) =
     (if GXPart.Type part = ''e4c4ade7-53f0-4a56-bdfd-843735b66f47'' then Variables part
      else variablesOf parts)"

definition variableInfoMap :: "GXVariable list \<Rightarrow> (string \<rightharpoonup> string \<times> string)" where
  "variableInfoMap variables = foldl addVariableInfo Map.empty variables"

definition enrichParametersWithVariableInfo ::
  "ParameterDoc list \<Rightarrow> GXPart list \<Rightarrow> ParameterDoc list" where
  "enrichParametersWithVariableInfo params parts =
     (if length params = 0 then params
      else
        (let variables = variablesOf parts in
         if length variables = 0 then params
         else map (enrichParamInfo (variableInfoMap variables)) params))"

definition gxTypeMap :: "string \<Rightarrow> string" where
  "gxTypeMap t = (if t = GXTypeProcedure then ''Procedure'' else [])"

text \<open>
  What \<^verbatim>\<open>parseGXExportFile\<close> does for a Procedure object: the source code, the Parm
  signature and the documentation.
\<close>

definition parsedDocumentation :: "unicode \<Rightarrow> string \<Rightarrow> DocComment option" where
  "parsedDocumentation u sourceCode =
     (if sourceCode \<noteq> [] then
        (case Parse u sourceCode of
           (doc, Some err) \<Rightarrow> None
         | (doc, None) \<Rightarrow> doc)
      else None)"

definition procedureDocumentation ::
  "unicode \<Rightarrow> GXObjectXML \<Rightarrow> string \<times> string \<times> DocComment option" where
  "procedureDocumentation u obj =
     (let sourceCode = extractProcedureSource (Parts obj);
          parmSignature = extractParmSignature (Parts obj) (GXObjectXML.Name obj);
          documentation = parsedDocumentation u sourceCode
      in if documentation = None \<and> parmSignature \<noteq> [] then
           (let params = parseParmParameters u parmSignature;
                params = enrichParametersWithVariableInfo params (Parts obj)
            in (sourceCode, parmSignature,
                Some (emptyDocComment\<lparr>IsAutoGenerated := True, DocComment.Parameters := params,
                                       Tags := []\<rparr>)))
         else
           (case documentation of
              Some doc \<Rightarrow>
                if length (DocComment.Parameters doc) = 0 \<and> parmSignature \<noteq> [] then
                  (let params = parseParmParameters u parmSignature;
                       params = enrichParametersWithVariableInfo params (Parts obj)
                   in (sourceCode, parmSignature, Some (doc\<lparr>DocComment.Parameters := params\<rparr>)))
                else (sourceCode, parmSignature, documentation)
            | None \<Rightarrow> (sourceCode, parmSignature, documentation)))"

text \<open>
  The body of the loop of \<^verbatim>\<open>parseGXExportFile\<close> over the decoded objects, on the
  objects collected so far and the keys seen.
\<close>

definition assembleObject ::
  "unicode \<Rightarrow> GXObject list \<times> string set \<Rightarrow> GXObjectXML \<Rightarrow> GXObject list \<times> string set" where
  "assembleObject u st obj =
     (let typeName = gxTypeMap (GXObjectXML.Type obj);
          typeName = (if typeName = [] then ''Unknown'' else typeName)
      in if typeName = ''Folder'' then st
         else if typeName = ''Unknown'' then st
         else
           (let objKey = GXObjectXML.Name obj @ ''|'' @ GXObjectXML.Type obj in
            if objKey \<in> snd st then st
            else
              (let displayName = (if GXObjectXML.Description obj \<noteq> []
                                  then GXObjectXML.Description obj else GXObjectXML.Name obj);
                   (sourceCode, parmSignature, documentation) =
                     (if typeName = ''Procedure'' then procedureDocumentation u obj
                      else ([], [], None))
               in (fst st @ [\<lparr>GXObject.Name = displayName, Type = typeName,
                                Path = GXObjectXML.Name obj, SourceCode = sourceCode,
                                ParmSignature = parmSignature,
                                XMLDescription = GXObjectXML.Description obj,
                                Documentation = documentation\<rparr>],
                   insert objKey (snd st)))))"

definition assembleObjects :: "unicode \<Rightarrow> GXObjectXML list \<Rightarrow> GXObject list" where
  "assembleObjects u objs = fst (foldl (assembleObject u) ([], {}) objs)"


section \<open>Example documents\<close>

text \<open>
  The documents of \<^verbatim>\<open>signature_test.go\<close>: a \<^verbatim>\<open>Variable\<close> element with its properties,
  an object with a rules part, an object with a variables part, an object without parts.
\<close>

definition variableNode :: "string \<Rightarrow> (string \<times> string) list \<Rightarrow> xnode" where
  "variableNode n ps =
     Element ''Variable'' [(''Name'', n)]
       [Element ''Properties'' []
          (map (\<lambda>(k, v). Element ''Property'' []
                  [Element ''Name'' [] [TextNode k], Element ''Value'' [] [TextNode v]]) ps)]"

definition rulesPart :: "string \<Rightarrow> xnode" where
  "rulesPart source =
     Element ''Part'' [(''type'', GXPartRules)] [Element ''Source'' [] [TextNode source]]"

definition variablesPart :: "xnode list \<Rightarrow> xnode" where
  "variablesPart vars = Element ''Part'' [(''type'', GXPartVariables)] vars"

definition document :: "xnode list \<Rightarrow> xnode" where
  "document parts = Element [] [] [Element ''Object'' [] parts]"

definition userVariables :: "xnode list" where
  "userVariables =
     [variableNode ''UserID''
        [(''IsParm'', ''True''), (''Name'', ''UserID''), (''ATTCUSTOMTYPE'', ''bas:Numeric''),
         (''Description'', ''User identifier'')],
      variableNode ''UserName''
        [(''IsParm'', ''True''), (''Name'', ''UserName''), (''ATTCUSTOMTYPE'', ''bas:Character'')]]"

definition docParmRule :: xnode where
  "docParmRule = document [rulesPart ''Parm(in:&UserID, out:&UserName);'']"

definition docIsParm :: xnode where
  "docIsParm = document [variablesPart userVariables]"

definition docNoParams :: xnode where
  "docNoParams = document []"

text \<open>An object whose rules have no \<^verbatim>\<open>Parm\<close> rule, with the variables of the second test.\<close>

definition docRulesWithoutParm :: xnode where
  "docRulesWithoutParm = document [rulesPart ''Msg(&Text);'', variablesPart userVariables]"

text \<open>An object whose rules are the commented line of the specification.\<close>

definition docCommentedParm :: xnode where
  "docCommentedParm = document [rulesPart ''// Parm(in:&X);'']"

text \<open>
  Decoded parts of a procedure, for \<^verbatim>\<open>parseGXExportFile\<close>: the rules and the variables of
  the tests, and a source part with or without an annotation block.
\<close>

definition userParts :: "GXPart list" where
  "userParts =
     [\<lparr>GXPart.Type = GXPartRules, Source = ''Parm(in:&UserID, out:&UserName);'', Variables = []\<rparr>,
      \<lparr>GXPart.Type = GXPartVariables, Source = [],
        Variables =
          [\<lparr>GXVariable.Name = ''UserID'',
             Properties = [\<lparr>GXProperty2.Name = ''Description'', Value = ''User identifier''\<rparr>,
                           \<lparr>GXProperty2.Name = ''ATTCUSTOMTYPE'', Value = ''bas:Numeric''\<rparr>]\<rparr>]\<rparr>]"

definition procedureObject :: "string \<Rightarrow> GXObjectXML" where
  "procedureObject sourceCode =
     \<lparr>GXObjectXML.Name = ''GetUser'', Type = GXTypeProcedure, Description = [], Parent = [],
      ParentType = [],
      Parts = \<lparr>GXPart.Type = GXPartSourceCode, Source = sourceCode, Variables = []\<rparr> # userParts\<rparr>"


text \<open>
  A procedure whose rules are a \<^verbatim>\<open>Parm\<close> rule and another rule on the next line: as the
  \<^verbatim>\<open>Object\<close> element of an export file, which the resolver reads, and as
  \<^verbatim>\<open>parseGXExportFile\<close> decodes that element.
\<close>

definition twoRules :: string where
  "twoRules = ''Parm(in:&A);'' @ [CHR 0x0A] @ ''Msg(1);''"

definition twoRulesNode :: xnode where
  "twoRulesNode =
     Element ''Object'' [(''name'', ''P''), (''type'', GXTypeProcedure)] [rulesPart twoRules]"

definition twoRulesObject :: GXObjectXML where
  "twoRulesObject =
     \<lparr>GXObjectXML.Name = ''P'', Type = GXTypeProcedure, Description = [], Parent = [],
      ParentType = [],
      Parts = [\<lparr>GXPart.Type = GXPartRules, Source = twoRules, Variables = []\<rparr>]\<rparr>"
section \<open>Facts about the string functions\<close>

declare Split.simps [simp del]

text \<open>The shape of the encodings of white space: a leading byte, then continuation bytes.\<close>

lemma spaceTokens_shape_all:
  "list_all (\<lambda>t. t \<noteq> [] \<and> \<not> isCont (hd t) \<and> list_all isCont (tl t)) spaceTokens"
  by code_simp

lemma spaceTokens_shape:
  assumes "t \<in> set spaceTokens"
  shows "t \<noteq> []" "\<not> isCont (hd t)" "c \<in> set (tl t) \<Longrightarrow> isCont c"
  using assms spaceTokens_shape_all by (auto simp: list_all_iff)

lemma spaceTokens_prefix_free_all:
  "list_all (\<lambda>a. list_all (\<lambda>b. prefix a b \<longrightarrow> a = b) spaceTokens) spaceTokens"
  by code_simp

lemma spaceTokens_prefix_free:
  "a \<in> set spaceTokens \<Longrightarrow> b \<in> set spaceTokens \<Longrightarrow> prefix a b \<Longrightarrow> a = b"
  using spaceTokens_prefix_free_all by (auto simp: list_all_iff)

lemma spaceTokens_suffix_free_all:
  "list_all (\<lambda>a. list_all (\<lambda>b. suffix a b \<longrightarrow> a = b) spaceTokens) spaceTokens"
  by code_simp

lemma spaceTokens_suffix_free:
  "a \<in> set spaceTokens \<Longrightarrow> b \<in> set spaceTokens \<Longrightarrow> suffix a b \<Longrightarrow> a = b"
  using spaceTokens_suffix_free_all by (auto simp: list_all_iff)

lemma spaceWidth_zero_iff: "spaceWidth s = 0 \<longleftrightarrow> (\<forall>t\<in>set spaceTokens. \<not> prefix t s)"
proof (cases "find (\<lambda>t. prefix t s) spaceTokens")
  case None
  then have "\<forall>t\<in>set spaceTokens. \<not> prefix t s" by (simp add: find_None_iff)
  with None show ?thesis by (simp add: spaceWidth_def)
next
  case (Some t)
  then have "t \<in> set spaceTokens" "prefix t s" by (auto simp: find_Some_iff)
  moreover from this have "t \<noteq> []" by (simp add: spaceTokens_shape(1))
  ultimately show ?thesis using Some by (auto simp: spaceWidth_def)
qed

lemma spaceWidthLast_zero_iff: "spaceWidthLast s = 0 \<longleftrightarrow> (\<forall>t\<in>set spaceTokens. \<not> suffix t s)"
proof (cases "find (\<lambda>t. suffix t s) spaceTokens")
  case None
  then have "\<forall>t\<in>set spaceTokens. \<not> suffix t s" by (simp add: find_None_iff)
  with None show ?thesis by (simp add: spaceWidthLast_def)
next
  case (Some t)
  then have "t \<in> set spaceTokens" "suffix t s" by (auto simp: find_Some_iff)
  moreover from this have "t \<noteq> []" by (simp add: spaceTokens_shape(1))
  ultimately show ?thesis using Some by (auto simp: spaceWidthLast_def)
qed

lemma spaceWidth_token:
  assumes "t \<in> set spaceTokens"
  shows "spaceWidth (t @ r) = length t"
proof (cases "find (\<lambda>a. prefix a (t @ r)) spaceTokens")
  case None
  with assms show ?thesis by (auto simp: find_None_iff)
next
  case (Some a)
  then have a: "a \<in> set spaceTokens" "prefix a (t @ r)" by (auto simp: find_Some_iff)
  have "prefix t (t @ r)" by simp
  with a(2) have "prefix a t \<or> prefix t a" by (rule prefix_same_cases)
  with a(1) assms have "a = t" by (auto dest: spaceTokens_prefix_free)
  with Some show ?thesis by (simp add: spaceWidth_def)
qed

lemma spaceWidthLast_token:
  assumes "t \<in> set spaceTokens"
  shows "spaceWidthLast (x @ t) = length t"
proof (cases "find (\<lambda>a. suffix a (x @ t)) spaceTokens")
  case None
  with assms have "\<not> suffix t (x @ t)" by (auto simp: find_None_iff)
  then show ?thesis by (simp add: suffix_def)
next
  case (Some a)
  then have a: "a \<in> set spaceTokens" "suffix a (x @ t)" by (auto simp: find_Some_iff)
  have "suffix t (x @ t)" by (simp add: suffix_def)
  with a(2) have "suffix a t \<or> suffix t a" by (rule suffix_same_cases)
  with a(1) assms have "a = t" by (auto dest: spaceTokens_suffix_free)
  with Some show ?thesis by (simp add: spaceWidthLast_def)
qed

lemma spaceWidth_SomeD:
  assumes "spaceWidth s \<noteq> 0"
  obtains t r where "t \<in> set spaceTokens" "s = t @ r" "spaceWidth s = length t"
proof -
  from assms obtain t where "t \<in> set spaceTokens" "prefix t s"
    by (auto simp: spaceWidth_zero_iff)
  then obtain r where "t \<in> set spaceTokens" "s = t @ r" by (auto simp: prefix_def)
  then show ?thesis using that spaceWidth_token by blast
qed

lemma spaceWidthLast_SomeD:
  assumes "spaceWidthLast s \<noteq> 0"
  obtains t x where "t \<in> set spaceTokens" "s = x @ t" "spaceWidthLast s = length t"
proof -
  from assms obtain t where "t \<in> set spaceTokens" "suffix t s"
    by (auto simp: spaceWidthLast_zero_iff)
  then obtain x where "t \<in> set spaceTokens" "s = x @ t" by (auto simp: suffix_def)
  then show ?thesis using that spaceWidthLast_token by blast
qed


lemma spaceWidth_take: "spaceWidth s = 0 \<Longrightarrow> spaceWidth (take k s) = 0"
  by (auto simp: spaceWidth_zero_iff dest: prefix_order.trans [OF _ take_is_prefix])

subsection \<open>\<^verbatim>\<open>TrimSpace\<close>\<close>

lemma length_TrimLeft: "length (TrimLeft s) \<le> length s"
proof (induction s rule: TrimLeft.induct)
  case (1 s)
  show ?case
  proof (cases "spaceWidth s = 0")
    case True
    then show ?thesis by (simp add: TrimLeft.simps [of s])
  next
    case False
    with 1 have "length (TrimLeft (drop (spaceWidth s) s)) \<le> length s" by simp
    with False show ?thesis by (simp add: TrimLeft.simps [of s])
  qed
qed

lemma TrimRight_prefix: "prefix (TrimRight s) s"
proof (induction s rule: TrimRight.induct)
  case (1 s)
  show ?case
  proof (cases "spaceWidthLast s = 0")
    case True
    then show ?thesis by (simp add: TrimRight.simps [of s])
  next
    case False
    with 1 have "prefix (TrimRight (take (length s - spaceWidthLast s) s))
                        (take (length s - spaceWidthLast s) s)" by simp
    then have "prefix (TrimRight (take (length s - spaceWidthLast s) s)) s"
      by (rule prefix_order.trans) (rule take_is_prefix)
    with False show ?thesis by (simp add: TrimRight.simps [of s])
  qed
qed

lemma length_TrimRight: "length (TrimRight s) \<le> length s"
  by (rule prefix_length_le) (rule TrimRight_prefix)

lemma length_TrimSpace: "length (TrimSpace s) \<le> length s"
  unfolding TrimSpace_def
  by (rule le_trans [OF length_TrimRight length_TrimLeft])

lemma TrimSpace_Nil [simp]: "TrimSpace [] = []"
  by (simp add: TrimSpace_def TrimLeft.simps [of "[]"] TrimRight.simps [of "[]"]
      spaceWidth_zero_iff spaceWidthLast_zero_iff spaceTokens_shape(1))

lemma spaceWidth_TrimLeft: "spaceWidth (TrimLeft s) = 0"
proof (induction s rule: TrimLeft.induct)
  case (1 s)
  then show ?case by (cases "spaceWidth s = 0") (simp_all add: TrimLeft.simps [of s])
qed

lemma spaceWidthLast_TrimRight: "spaceWidthLast (TrimRight s) = 0"
proof (induction s rule: TrimRight.induct)
  case (1 s)
  then show ?case by (cases "spaceWidthLast s = 0") (simp_all add: TrimRight.simps [of s])
qed

lemma spaceWidth_TrimRight: "spaceWidth s = 0 \<Longrightarrow> spaceWidth (TrimRight s) = 0"
proof -
  assume a: "spaceWidth s = 0"
  from TrimRight_prefix [of s] obtain k where "TrimRight s = take k s"
    by (auto simp: prefix_def) (metis append_eq_conv_conj)
  with a show ?thesis by (simp add: spaceWidth_take)
qed

lemma TrimSpace_fixed: "spaceWidth x = 0 \<Longrightarrow> spaceWidthLast x = 0 \<Longrightarrow> TrimSpace x = x"
  by (simp add: TrimSpace_def TrimLeft.simps [of x] TrimRight.simps [of x])

lemma TrimSpace_ends: "spaceWidth (TrimSpace s) = 0" "spaceWidthLast (TrimSpace s) = 0"
  by (simp_all add: TrimSpace_def spaceWidth_TrimRight spaceWidth_TrimLeft spaceWidthLast_TrimRight)

lemma TrimSpace_fixed_iff: "TrimSpace x = x \<longleftrightarrow> spaceWidth x = 0 \<and> spaceWidthLast x = 0"
  using TrimSpace_ends [of x] TrimSpace_fixed [of x] by auto

lemma TrimSpace_idem [simp]: "TrimSpace (TrimSpace s) = TrimSpace s"
  by (simp add: TrimSpace_fixed TrimSpace_ends)

text \<open>A text that does not begin with white space keeps its first byte.\<close>

lemma TrimRight_keeps_first:
  "spaceWidth s = 0 \<Longrightarrow> s \<noteq> [] \<Longrightarrow> TrimRight s \<noteq> []"
proof (induction s rule: TrimRight.induct)
  case (1 s)
  show ?case
  proof (cases "spaceWidthLast s = 0")
    case True
    with 1 show ?thesis by (simp add: TrimRight.simps [of s])
  next
    case False
    then obtain t x where t: "t \<in> set spaceTokens" "s = x @ t" "spaceWidthLast s = length t"
      by (rule spaceWidthLast_SomeD)
    have "x \<noteq> []"
    proof
      assume "x = []"
      with t have "spaceWidth s = length t" using spaceWidth_token [of t "[]"] by simp
      with "1.prems"(1) t(1) show False by (simp add: spaceTokens_shape(1))
    qed
    moreover from t have tk: "take (length s - spaceWidthLast s) s = x" by simp
    moreover from "1.prems"(1) have "spaceWidth (take (length s - spaceWidthLast s) s) = 0"
      by (rule spaceWidth_take)
    ultimately have "TrimRight x \<noteq> []" using "1.IH" False by simp
    with False tk show ?thesis by (simp add: TrimRight.simps [of s])
  qed
qed

lemma TrimSpace_keeps_first:
  assumes "spaceWidth (c # cs) = 0"
  shows "\<exists>r. TrimSpace (c # cs) = c # r"
proof -
  from assms have "TrimSpace (c # cs) = TrimRight (c # cs)"
    by (simp add: TrimSpace_def TrimLeft.simps [of "c # cs"])
  moreover from assms have "TrimRight (c # cs) \<noteq> []" by (rule TrimRight_keeps_first) simp
  moreover have "prefix (TrimRight (c # cs)) (c # cs)" by (rule TrimRight_prefix)
  ultimately show ?thesis by (cases "TrimRight (c # cs)") (auto simp: prefix_Cons)
qed

lemma Contains_char: "Contains s [c] \<longleftrightarrow> c \<in> set s"
  by (induction s) (auto simp: Contains_def)

lemma cleanType_shrinks:
  assumes "Contains (TrimSpace y) '':''" "\<not> HasPrefix (TrimSpace y) ''Attribute:''"
  shows "length (cleanType y) < length y"
proof -
  from assms(1) obtain a b where cut: "cutStr '':'' (TrimSpace y) = Some (a, b)"
    by (auto simp: Contains_def)
  then have len: "length b < length (TrimSpace y)"
    by (auto dest: cutStr_length)
  have "length (cleanType y) \<le> length b"
  proof (cases "Index b '','' = - 1")
    case True
    with assms cut show ?thesis by (simp add: cleanType_def SplitN2_def)
  next
    case False
    with assms cut have "cleanType y = TrimSpace (take (nat (Index b '','')) b)"
      by (simp add: cleanType_def SplitN2_def)
    moreover have "length (TrimSpace (take (nat (Index b '','')) b)) \<le> length (take (nat (Index b '','')) b)"
      by (rule length_TrimSpace)
    ultimately show ?thesis by simp
  qed
  with len length_TrimSpace [of y] show ?thesis by linarith
qed

lemma cleanType_fixed_iff:
  "cleanType y = y \<longleftrightarrow>
     TrimSpace y = y \<and> (\<not> Contains y '':'' \<or> HasPrefix y ''Attribute:'')"
proof (cases "Contains (TrimSpace y) '':'' \<and> \<not> HasPrefix (TrimSpace y) ''Attribute:''")
  case True
  then have "length (cleanType y) < length y" by (simp add: cleanType_shrinks)
  then have "cleanType y \<noteq> y" by auto
  with True show ?thesis by auto
next
  case False
  then have "cleanType y = TrimSpace y" by (auto simp: cleanType_def)
  with False show ?thesis by auto
qed





lemma spaceTokens_ends_all:
  "list_all (\<lambda>t. (digit7 (hd t) \<or> isSpace (hd t)) \<and> (digit7 (last t) \<or> isSpace (last t)))
     spaceTokens"
  by code_simp

lemma spaceWidth_ASCII:
  assumes "\<not> digit7 c" "\<not> isSpace c"
  shows "spaceWidth (c # r) = 0"
proof -
  have "\<not> prefix t (c # r)" if t: "t \<in> set spaceTokens" for t
  proof
    assume "prefix t (c # r)"
    moreover from t have "t \<noteq> []" by (rule spaceTokens_shape(1))
    ultimately have "hd t = c" by (cases t) auto
    moreover from t spaceTokens_ends_all have "digit7 (hd t) \<or> isSpace (hd t)"
      by (auto simp: list_all_iff)
    ultimately show False using assms by simp
  qed
  then show ?thesis by (simp add: spaceWidth_zero_iff)
qed

lemma spaceWidthLast_ASCII:
  assumes "\<not> digit7 c" "\<not> isSpace c"
  shows "spaceWidthLast (x @ [c]) = 0"
proof -
  have "\<not> suffix t (x @ [c])" if t: "t \<in> set spaceTokens" for t
  proof
    assume "suffix t (x @ [c])"
    moreover from t have "t \<noteq> []" by (rule spaceTokens_shape(1))
    ultimately have "last t = c" by (cases t rule: rev_cases) auto
    moreover from t spaceTokens_ends_all have "digit7 (last t) \<or> isSpace (last t)"
      by (auto simp: list_all_iff)
    ultimately show False using assms by simp
  qed
  then show ?thesis by (simp add: spaceWidthLast_zero_iff)
qed

subsection \<open>\<^verbatim>\<open>Fields\<close>\<close>



lemma Fields_Nil [simp]: "Fields [] = []"
  by (simp add: Fields.simps [of "[]"])





subsection \<open>Letter case\<close>

lemma toLowerChar_i: "toLowerChar c = CHR ''i'' \<longleftrightarrow> toUpperChar c = CHR ''I''"
  by (auto simp: toLowerChar_def toUpperChar_def lowerLetters_def upperLetters_def split: if_splits)
lemma toLowerChar_n: "toLowerChar c = CHR ''n'' \<longleftrightarrow> toUpperChar c = CHR ''N''"
  by (auto simp: toLowerChar_def toUpperChar_def lowerLetters_def upperLetters_def split: if_splits)
lemma toLowerChar_o: "toLowerChar c = CHR ''o'' \<longleftrightarrow> toUpperChar c = CHR ''O''"
  by (auto simp: toLowerChar_def toUpperChar_def lowerLetters_def upperLetters_def split: if_splits)
lemma toLowerChar_u: "toLowerChar c = CHR ''u'' \<longleftrightarrow> toUpperChar c = CHR ''U''"
  by (auto simp: toLowerChar_def toUpperChar_def lowerLetters_def upperLetters_def split: if_splits)
lemma toLowerChar_t: "toLowerChar c = CHR ''t'' \<longleftrightarrow> toUpperChar c = CHR ''T''"
  by (auto simp: toLowerChar_def toUpperChar_def lowerLetters_def upperLetters_def split: if_splits)

lemmas toLowerChar_dir = toLowerChar_i toLowerChar_n toLowerChar_o toLowerChar_u toLowerChar_t

lemma lowerASCII_lit [simp]:
  "lowerASCII ''IN'' = ''in''" "lowerASCII ''OUT'' = ''out''" "lowerASCII ''INOUT'' = ''inout''"
  by (simp_all add: lowerASCII_def toLowerChar_def lowerLetters_def upperLetters_def)

lemma lowerASCII_in: "lowerASCII t = ''in'' \<longleftrightarrow> upperASCII t = ''IN''"
  by (auto simp: lowerASCII_def upperASCII_def map_eq_Cons_conv toLowerChar_dir)

lemma lowerASCII_out: "lowerASCII t = ''out'' \<longleftrightarrow> upperASCII t = ''OUT''"
  by (auto simp: lowerASCII_def upperASCII_def map_eq_Cons_conv toLowerChar_dir)

lemma lowerASCII_inout: "lowerASCII t = ''inout'' \<longleftrightarrow> upperASCII t = ''INOUT''"
  by (auto simp: lowerASCII_def upperASCII_def map_eq_Cons_conv toLowerChar_dir)

lemma ToUpper_ASCII: "isASCII s \<Longrightarrow> ToUpper u s = upperASCII s"
  by (simp add: ToUpper_def)

lemma ToLower_ASCII: "isASCII s \<Longrightarrow> ToLower u s = lowerASCII s"
  by (simp add: ToLower_def)

lemma isASCII_append [simp]: "isASCII (a @ b) \<longleftrightarrow> isASCII a \<and> isASCII b"
  by (simp add: isASCII_def)

lemma letters_ascii: "c \<in> set lowerLetters \<union> set upperLetters \<Longrightarrow> \<not> digit7 c"
  by (auto simp: lowerLetters_def upperLetters_def)

lemma toLowerChar_ascii:
  assumes "toLowerChar c \<in> set lowerLetters"
  shows "\<not> digit7 c"
proof (cases "map_of (zip upperLetters lowerLetters) c")
  case None
  with assms have "c \<in> set lowerLetters" by (simp add: toLowerChar_def)
  then show ?thesis using letters_ascii by blast
next
  case (Some x)
  then have "c \<in> set upperLetters" by (auto dest!: map_of_SomeD set_zip_leftD)
  then show ?thesis using letters_ascii by blast
qed

lemma lowerASCII_letters_isASCII:
  "set (lowerASCII s) \<subseteq> set lowerLetters \<Longrightarrow> isASCII s"
  by (induction s) (auto simp: lowerASCII_def isASCII_def toLowerChar_ascii)


section \<open>Facts about the annotation parser\<close>


lemma Split_Nil: "sep \<noteq> [] \<Longrightarrow> Split [] sep = [[]]"
  by (simp add: Split.simps [of "[]"])



section \<open>Facts about the resolver\<close>

lemma extractFromIsParmVariables_cases:
  "extractFromIsParmVariables u obj n = emptySignature
   \<or> (\<exists>ps. ps \<noteq> [] \<and>
          extractFromIsParmVariables u obj n =
            \<lparr>Parameters = Some ps, RawSignature = buildRawSignature u n ps, ExtractionMode = []\<rparr>)"
proof (cases "FindOne obj variablesPartPath")
  case None
  then show ?thesis by (simp add: extractFromIsParmVariables_def)
next
  case (Some part)
  show ?thesis
  proof (cases "foldl isParmVariable None (Find part variablePath)")
    case None
    with Some show ?thesis by (simp add: extractFromIsParmVariables_def lenSlice_def)
  next
    case (Some ps)
    with \<open>FindOne obj variablesPartPath = Some part\<close> show ?thesis
      by (cases ps) (simp_all add: extractFromIsParmVariables_def lenSlice_def elems_def)
  qed
qed

lemma ExtractProcedureSignature_cases:
  "(Parameters (extractFromParmRule u obj n) \<noteq> None \<and>
      ExtractProcedureSignature u obj n = (extractFromParmRule u obj n)\<lparr>ExtractionMode := ''ParmRule''\<rparr>)
   \<or> (Parameters (extractFromParmRule u obj n) = None \<and>
       Parameters (extractFromIsParmVariables u obj n) \<noteq> None \<and>
       ExtractProcedureSignature u obj n
         = (extractFromIsParmVariables u obj n)\<lparr>ExtractionMode := ''IsParm''\<rparr>)
   \<or> (Parameters (extractFromParmRule u obj n) = None \<and>
       Parameters (extractFromIsParmVariables u obj n) = None \<and>
       ExtractProcedureSignature u obj n
         = \<lparr>Parameters = Some [], RawSignature = n @ ''();'', ExtractionMode = ''None''\<rparr>)"
  by (simp add: ExtractProcedureSignature_def Let_def)

lemma activeSource_Nil [simp]: "activeSource [] = []"
  by (simp add: activeSource_def Split_Nil HasPrefix_def)

lemma parmRegexFind_Nil: "parmRegexFind (activeSource []) = None"
  by simp

lemma extractFromParmRule_no_match:
  assumes "parmRegexFind (activeSource (GetText obj rulesSourcePath)) = None"
  shows "extractFromParmRule u obj n = emptySignature"
  using assms by (simp add: extractFromParmRule_def parseParmString_def Let_def)

lemma extractFromParmRule_blank:
  assumes "parmRegexFind (activeSource (GetText obj rulesSourcePath)) = Some args"
    and "TrimSpace args = []"
  shows "extractFromParmRule u obj n
           = \<lparr>Parameters = Some [], RawSignature = n @ ''();'', ExtractionMode = []\<rparr>"
proof -
  from assms(1) have "GetText obj rulesSourcePath \<noteq> []" by auto
  with assms show ?thesis by (simp add: extractFromParmRule_def parseParmString_def Let_def)
qed

lemma cutStr_char_None: "c \<notin> set l \<Longrightarrow> cutStr [c] l = None"
  by (induction l) auto

lemma cutStr_char_first: "c \<notin> set l \<Longrightarrow> cutStr [c] (l @ c # r) = Some (l, r)"
  by (induction l) auto

lemma Split_no_sep: "c \<notin> set l \<Longrightarrow> Split l [c] = [l]"
  by (simp add: Split.simps [of l] cutStr_char_None)

lemma Split_first: "c \<notin> set l \<Longrightarrow> Split (l @ c # r) [c] = l # Split r [c]"
  by (simp add: Split.simps [of "l @ c # r"] cutStr_char_first)

lemma Split_Join:
  "ls \<noteq> [] \<Longrightarrow> \<forall>l\<in>set ls. c \<notin> set l \<Longrightarrow> Split (Join ls [c]) [c] = ls"
proof (induction ls "[c]" rule: Join.induct)
  case 1
  then show ?case by simp
next
  case (2 x)
  then show ?case by (simp add: Split_no_sep)
next
  case (3 x y ys)
  then show ?case by (simp add: Split_first)
qed

lemma activeSource_Join:
  assumes "ls \<noteq> []" "\<forall>l\<in>set ls. CHR 0x0A \<notin> set l"
  shows "activeSource (Join ls [CHR 0x0A])
           = Join (filter (\<lambda>line. \<not> HasPrefix (TrimSpace line) ''//'') ls) [CHR 0x0A]"
  using assms by (simp add: activeSource_def Split_Join)

lemma parseParmString_activeSource:
  "activeSource s = activeSource s' \<Longrightarrow> parseParmString u s n = parseParmString u s' n"
  by (simp add: parseParmString_def)

lemma activeSource_drop_comment:
  assumes nl: "\<forall>l\<in>set (ls1 @ [c] @ ls2). CHR 0x0A \<notin> set l"
    and c: "HasPrefix (TrimSpace c) ''//''"
  shows "activeSource (Join (ls1 @ [c] @ ls2) [CHR 0x0A]) = activeSource (Join (ls1 @ ls2) [CHR 0x0A])"
proof (cases "ls1 @ ls2 = []")
  case True
  with c show ?thesis by (simp add: activeSource_def Split_no_sep nl)
next
  case False
  from nl have "\<forall>l\<in>set (ls1 @ ls2). CHR 0x0A \<notin> set l" by auto
  with False have "activeSource (Join (ls1 @ ls2) [CHR 0x0A])
      = Join (filter (\<lambda>line. \<not> HasPrefix (TrimSpace line) ''//'') (ls1 @ ls2)) [CHR 0x0A]"
    by (rule activeSource_Join)
  moreover from nl have "activeSource (Join (ls1 @ [c] @ ls2) [CHR 0x0A])
      = Join (filter (\<lambda>line. \<not> HasPrefix (TrimSpace line) ''//'') (ls1 @ [c] @ ls2)) [CHR 0x0A]"
    by (intro activeSource_Join) simp_all
  ultimately show ?thesis using c by simp
qed

lemma dropWhile_spaces_then:
  "\<forall>c\<in>set w. P c \<Longrightarrow> \<not> P x \<Longrightarrow> dropWhile P (w @ x # r) = x # r"
  by (simp add: dropWhile_append2)

lemma reSpace_colon [simp]: "\<not> reSpace CHR '':''" "\<not> reSpace CHR ''&''" "\<not> reSpace CHR ''(''"
  by (simp_all add: reSpace_def)

lemma ciPrefix_append: "length dir = length d \<Longrightarrow> ciPrefix d (dir @ r) \<longleftrightarrow> lowerASCII dir = d"
  by (simp add: ciPrefix_def)

lemma paramWith_SomeD:
  assumes "paramWith d seg = Some (dir, name)"
  shows "\<exists>w1 w2. seg = dir @ w1 @ '':'' @ w2 @ ''&'' @ name \<and> length dir = length d
            \<and> lowerASCII dir = d \<and> (\<forall>c\<in>set (w1 @ w2). reSpace c)
            \<and> name \<noteq> [] \<and> CHR 0x0A \<notin> set name"
proof -
  from assms have ci: "ciPrefix d seg" by (simp add: paramWith_def split: if_splits)
  with assms obtain r where r: "dropWhile reSpace (drop (length d) seg) = CHR '':'' # r"
    by (auto simp: paramWith_def split: list.splits if_splits)
  with assms ci have n: "dropWhile reSpace r = CHR ''&'' # name" "name \<noteq> []" "CHR 0x0A \<notin> set name"
    and dir: "dir = take (length d) seg"
    by (auto simp: paramWith_def split: list.splits if_splits)
  let ?w1 = "takeWhile reSpace (drop (length d) seg)"
  let ?w2 = "takeWhile reSpace r"
  have "seg = take (length d) seg @ drop (length d) seg" by simp
  also have "drop (length d) seg = ?w1 @ dropWhile reSpace (drop (length d) seg)" by simp
  also have "dropWhile reSpace (drop (length d) seg) = CHR '':'' # ?w2 @ dropWhile reSpace r"
    using r by simp
  finally have "seg = dir @ ?w1 @ '':'' @ ?w2 @ ''&'' @ name" using n dir by simp
  moreover have "\<forall>c\<in>set (?w1 @ ?w2). reSpace c" by (auto dest: set_takeWhileD)
  moreover from ci dir have "length dir = length d" "lowerASCII dir = d"
    by (simp_all add: ciPrefix_def)
  ultimately show ?thesis using n by blast
qed

lemma paramWith_SomeI:
  assumes "length dir = length d" "lowerASCII dir = d" "\<forall>c\<in>set (w1 @ w2). reSpace c"
    "name \<noteq> []" "CHR 0x0A \<notin> set name"
  shows "paramWith d (dir @ w1 @ '':'' @ w2 @ ''&'' @ name) = Some (dir, name)"
proof -
  from assms have "ciPrefix d (dir @ w1 @ '':'' @ w2 @ ''&'' @ name)"
    by (simp add: ciPrefix_append)
  moreover from assms
  have "dropWhile reSpace (drop (length d) (dir @ w1 @ '':'' @ w2 @ ''&'' @ name))
          = CHR '':'' # w2 @ ''&'' @ name"
    by (simp add: dropWhile_spaces_then)
  moreover from assms have "dropWhile reSpace (w2 @ ''&'' @ name) = CHR ''&'' # name"
    by (simp add: dropWhile_spaces_then)
  ultimately show ?thesis using assms by (simp add: paramWith_def)
qed

lemma toLowerChar_o_cases: "toLowerChar c = CHR ''o'' \<longleftrightarrow> c = CHR ''o'' \<or> c = CHR ''O''"
  by (auto simp: toLowerChar_def lowerLetters_def upperLetters_def split: if_splits)

lemma paramWith_in_out:
  assumes "lowerASCII dir = ''out''"
  shows "paramWith ''in'' (dir @ r) = None"
proof -
  from assms obtain a b c where "dir = [a, b, c]" "toLowerChar a = CHR ''o''"
    by (auto simp: lowerASCII_def map_eq_Cons_conv)
  then show ?thesis by (simp add: paramWith_def ciPrefix_def lowerASCII_def)
qed

lemma paramWith_in_inout:
  assumes "lowerASCII dir = ''inout''"
  shows "paramWith ''in'' (dir @ r) = None" "paramWith ''out'' (dir @ r) = None"
proof -
  from assms obtain a b c d e where dir: "dir = [a, b, c, d, e]"
    and l: "toLowerChar a = CHR ''i''" "toLowerChar b = CHR ''n''" "toLowerChar c = CHR ''o''"
    by (auto simp: lowerASCII_def map_eq_Cons_conv)
  from l(3) have "\<not> reSpace c" "c \<noteq> CHR '':''"
    by (auto simp: toLowerChar_o_cases reSpace_def)
  with dir l show "paramWith ''in'' (dir @ r) = None"
    by (simp add: paramWith_def ciPrefix_def lowerASCII_def)
  from dir l show "paramWith ''out'' (dir @ r) = None"
    by (simp add: paramWith_def ciPrefix_def lowerASCII_def)
qed

lemma paramRegexFind_iff:
  "paramRegexFind seg = Some (dir, name) \<longleftrightarrow>
     (\<exists>w1 w2. seg = dir @ w1 @ '':'' @ w2 @ ''&'' @ name \<and> isDirection dir
        \<and> (\<forall>c\<in>set (w1 @ w2). reSpace c) \<and> name \<noteq> [] \<and> CHR 0x0A \<notin> set name)"
proof
  assume "paramRegexFind seg = Some (dir, name)"
  then consider "paramWith ''in'' seg = Some (dir, name)"
    | "paramWith ''out'' seg = Some (dir, name)"
    | "paramWith ''inout'' seg = Some (dir, name)"
    by (auto simp: paramRegexFind_def split: option.splits)
  then show "\<exists>w1 w2. seg = dir @ w1 @ '':'' @ w2 @ ''&'' @ name \<and> isDirection dir
        \<and> (\<forall>c\<in>set (w1 @ w2). reSpace c) \<and> name \<noteq> [] \<and> CHR 0x0A \<notin> set name"
    by cases (drule paramWith_SomeD, auto simp: isDirection_def)+
next
  assume "\<exists>w1 w2. seg = dir @ w1 @ '':'' @ w2 @ ''&'' @ name \<and> isDirection dir
        \<and> (\<forall>c\<in>set (w1 @ w2). reSpace c) \<and> name \<noteq> [] \<and> CHR 0x0A \<notin> set name"
  then obtain w1 w2 where seg: "seg = dir @ w1 @ '':'' @ w2 @ ''&'' @ name"
    and d: "isDirection dir"
    and w: "\<forall>c\<in>set (w1 @ w2). reSpace c" "name \<noteq> []" "CHR 0x0A \<notin> set name"
    by blast
  from d consider "lowerASCII dir = ''in''" | "lowerASCII dir = ''out''" | "lowerASCII dir = ''inout''"
    by (auto simp: isDirection_def)
  then show "paramRegexFind seg = Some (dir, name)"
  proof cases
    case 1
    then have "length dir = length ''in''" by (auto simp: lowerASCII_def)
    with 1 w have "paramWith ''in'' seg = Some (dir, name)"
      unfolding seg by (intro paramWith_SomeI)
    then show ?thesis by (simp add: paramRegexFind_def)
  next
    case 2
    then have "length dir = length ''out''" by (auto simp: lowerASCII_def)
    with 2 w have "paramWith ''out'' seg = Some (dir, name)"
      unfolding seg by (intro paramWith_SomeI)
    moreover from 2 have "paramWith ''in'' seg = None"
      unfolding seg by (rule paramWith_in_out)
    ultimately show ?thesis by (simp add: paramRegexFind_def)
  next
    case 3
    then have "length dir = length ''inout''" by (auto simp: lowerASCII_def)
    with 3 w have "paramWith ''inout'' seg = Some (dir, name)"
      unfolding seg by (intro paramWith_SomeI)
    moreover from 3 have "paramWith ''in'' seg = None" "paramWith ''out'' seg = None"
      unfolding seg by (rule paramWith_in_inout)+
    ultimately show ?thesis by (simp add: paramRegexFind_def)
  qed
qed

lemma paramRegexFind_Nil [simp]: "paramRegexFind [] = None"
  by (simp add: paramRegexFind_def paramWith_def ciPrefix_def)

lemma parmPart_segment:
  "parmPart u params seg
     = (case segmentParameter u seg of None \<Rightarrow> params | Some p \<Rightarrow> appendSlice params p)"
  by (simp add: parmPart_def segmentParameter_def Let_def split: option.split)

lemma elems_foldl_parmPart:
  "elems (foldl (parmPart u) acc segs) = elems acc @ List.map_filter (segmentParameter u) segs"
proof (induction segs arbitrary: acc)
  case Nil
  then show ?case by (simp add: map_filter_simps)
next
  case (Cons seg segs)
  show ?case
  proof (cases "segmentParameter u seg")
    case None
    with Cons show ?thesis by (simp add: parmPart_segment map_filter_simps)
  next
    case (Some p)
    then have "elems (parmPart u acc seg) = elems acc @ [p]"
      by (simp add: parmPart_segment appendSlice_def elems_def split: option.split)
    with Cons Some show ?thesis by (simp add: map_filter_simps)
  qed
qed

lemma activeSource_single_line:
  assumes "CHR 0x0A \<notin> set (c # cs)" "spaceWidth (c # cs) = 0" "c \<noteq> CHR ''/''"
  shows "activeSource (c # cs) = c # cs"
proof -
  from assms(1) have "Split (c # cs) [CHR 0x0A] = [c # cs]" by (rule Split_no_sep)
  moreover from assms(2) obtain r where "TrimSpace (c # cs) = c # r"
    using TrimSpace_keeps_first by blast
  with assms(3) have "\<not> HasPrefix (TrimSpace (c # cs)) ''//''"
    by (simp add: HasPrefix_def)
  ultimately show ?thesis by (simp add: activeSource_def)
qed

lemma takeWhile_until: "\<forall>x\<in>set xs. P x \<Longrightarrow> \<not> P y \<Longrightarrow> takeWhile P (xs @ y # r) = xs"
  by (induction xs) auto

lemma toLowerChar_newline [simp]: "toLowerChar (CHR 0x0A) = CHR 0x0A"
  by (simp add: toLowerChar_def lowerLetters_def upperLetters_def)

lemma lowerASCII_no_newline:
  assumes "CHR 0x0A \<notin> set (lowerASCII kw)"
  shows "CHR 0x0A \<notin> set kw"
proof
  assume "CHR 0x0A \<in> set kw"
  then have "toLowerChar (CHR 0x0A) \<in> toLowerChar ` set kw" by (rule imageI)
  with assms show False by (simp add: lowerASCII_def)
qed

lemma toLowerChar_p_cases: "toLowerChar c = CHR ''p'' \<longleftrightarrow> c = CHR ''p'' \<or> c = CHR ''P''"
  by (auto simp: toLowerChar_def lowerLetters_def upperLetters_def split: if_splits)

lemma parmAt_call:
  assumes "lowerASCII kw = ''parm''" "CHR '')'' \<notin> set args" "CHR 0x0A \<notin> set args"
  shows "parmAt (kw @ ''('' @ args @ '')'' @ rest) = Some (args, rest)"
proof -
  from assms(1) have len: "length kw = 4" by (auto simp: lowerASCII_def)
  with assms(1) have "ciPrefix ''parm'' (kw @ ''('' @ args @ '')'' @ rest)"
    by (simp add: ciPrefix_def)
  moreover from assms(2,3)
  have "takeWhile (\<lambda>x. x \<noteq> CHR '')'' \<and> x \<noteq> CHR 0x0A) (args @ CHR '')'' # rest) = args"
    by (intro takeWhile_until) auto
  ultimately show ?thesis using len by (simp add: parmAt_def)
qed

lemma parmRegexFind_call:
  assumes "lowerASCII kw = ''parm''" "CHR '')'' \<notin> set args" "CHR 0x0A \<notin> set (args @ rest)"
  shows "parmRegexFind (activeSource (kw @ ''('' @ args @ '')'' @ rest)) = Some args"
proof -
  from assms(1) obtain k ks where kw: "kw = k # ks" "toLowerChar k = CHR ''p''"
    by (auto simp: lowerASCII_def map_eq_Cons_conv)
  from assms(1) have "CHR 0x0A \<notin> set (lowerASCII kw)" by simp
  then have nl: "CHR 0x0A \<notin> set kw" by (rule lowerASCII_no_newline)
  from kw(2) have "\<not> digit7 k" "\<not> isSpace k" and k: "k \<noteq> CHR ''/''"
    by (auto simp: toLowerChar_p_cases isSpace_def)
  then have sw: "spaceWidth (k # (ks @ ''('' @ args @ '')'' @ rest)) = 0"
    by (intro spaceWidth_ASCII)
  let ?s = "kw @ ''('' @ args @ '')'' @ rest"
  from kw nl assms(3) have "CHR 0x0A \<notin> set (k # (ks @ ''('' @ args @ '')'' @ rest))" by auto
  with sw k have "activeSource (k # (ks @ ''('' @ args @ '')'' @ rest))
                 = k # (ks @ ''('' @ args @ '')'' @ rest)"
    by (intro activeSource_single_line)
  then have act: "activeSource ?s = ?s" using kw(1) by simp
  from assms have "parmAt ?s = Some (args, rest)" by (intro parmAt_call) auto
  then have "parmRegexFind ?s = Some args" using kw(1) by simp
  with act show ?thesis by simp
qed

lemma isDirection_isASCII: "isDirection dir \<Longrightarrow> isASCII dir"
  by (rule lowerASCII_letters_isASCII) (auto simp: isDirection_def lowerLetters_def)

lemma isDirection_ToUpper:
  assumes "isDirection dir"
  shows "ToUpper u dir = upperASCII dir"
    "ToUpper u dir = ''IN'' \<or> ToUpper u dir = ''OUT'' \<or> ToUpper u dir = ''INOUT''"
proof -
  from assms have "isASCII dir" by (rule isDirection_isASCII)
  then show a: "ToUpper u dir = upperASCII dir" by (rule ToUpper_ASCII)
  from assms show "ToUpper u dir = ''IN'' \<or> ToUpper u dir = ''OUT'' \<or> ToUpper u dir = ''INOUT''"
    unfolding a by (auto simp: isDirection_def lowerASCII_in lowerASCII_out lowerASCII_inout)
qed

lemma segmentParameter_iff:
  "segmentParameter u seg = Some p \<longleftrightarrow>
     (\<exists>dir w1 w2 name.
        TrimSpace seg = dir @ w1 @ '':'' @ w2 @ ''&'' @ name \<and> isDirection dir
        \<and> (\<forall>c\<in>set (w1 @ w2). reSpace c) \<and> name \<noteq> [] \<and> CHR 0x0A \<notin> set name
        \<and> p = \<lparr>ParameterDoc.Name = TrimSpace name, Direction = ToUpper u dir, Type = [],
                Description = []\<rparr>)"
proof
  assume "segmentParameter u seg = Some p"
  then obtain dir name where "paramRegexFind (TrimSpace seg) = Some (dir, name)"
    and "p = \<lparr>ParameterDoc.Name = TrimSpace name, Direction = ToUpper u dir, Type = [],
              Description = []\<rparr>"
    by (auto simp: segmentParameter_def split: option.splits)
  then show "\<exists>dir w1 w2 name.
        TrimSpace seg = dir @ w1 @ '':'' @ w2 @ ''&'' @ name \<and> isDirection dir
        \<and> (\<forall>c\<in>set (w1 @ w2). reSpace c) \<and> name \<noteq> [] \<and> CHR 0x0A \<notin> set name
        \<and> p = \<lparr>ParameterDoc.Name = TrimSpace name, Direction = ToUpper u dir, Type = [],
                Description = []\<rparr>"
    unfolding paramRegexFind_iff by blast
next
  assume "\<exists>dir w1 w2 name.
        TrimSpace seg = dir @ w1 @ '':'' @ w2 @ ''&'' @ name \<and> isDirection dir
        \<and> (\<forall>c\<in>set (w1 @ w2). reSpace c) \<and> name \<noteq> [] \<and> CHR 0x0A \<notin> set name
        \<and> p = \<lparr>ParameterDoc.Name = TrimSpace name, Direction = ToUpper u dir, Type = [],
                Description = []\<rparr>"
  then obtain dir name where "paramRegexFind (TrimSpace seg) = Some (dir, name)"
    and "p = \<lparr>ParameterDoc.Name = TrimSpace name, Direction = ToUpper u dir, Type = [],
              Description = []\<rparr>"
    unfolding paramRegexFind_iff by blast
  then show "segmentParameter u seg = Some p" by (simp add: segmentParameter_def)
qed

lemma parseParmString_elems:
  assumes "parmRegexFind (activeSource source) = Some args" "TrimSpace args \<noteq> []"
  shows "elems (Parameters (parseParmString u source n))
           = List.map_filter (segmentParameter u) (Split args '','')"
  using assms
  by (simp add: parseParmString_def Let_def elems_foldl_parmPart) (simp add: elems_def)

section \<open>Facts about the enrichers\<close>


lemma enrichParam_fill:
  "m (ParameterDoc.Name p) = Some (t, d) \<Longrightarrow>
     ParameterDoc.Type (enrichParam m p) = (if ParameterDoc.Type p = [] then t else ParameterDoc.Type p)
     \<and> ParameterDoc.Description (enrichParam m p)
         = (if ParameterDoc.Description p = [] then d else ParameterDoc.Description p)"
  by (simp add: enrichParam_def Let_def)









lemma parseParmParameters_Nil [simp]: "parseParmParameters u [] = []"
  by (simp add: parseParmParameters_def)

section \<open>Facts about the raw signature\<close>

lemma suffix2_append:
  assumes "suffix [a, b] (m @ r)" "a \<notin> set m" "b \<notin> set m"
  shows "suffix [a, b] r"
proof -
  from assms(1) consider "suffix [a, b] r" | xs' where "[a, b] = xs' @ r" "suffix xs' m"
    by (auto simp: suffix_append)
  then show ?thesis
  proof cases
    case 1
    then show ?thesis .
  next
    case 2
    show ?thesis
    proof (cases xs')
      case Nil
      with 2 show ?thesis by simp
    next
      case (Cons y ys)
      with 2 have "y = a" "a \<in> set m" by (auto dest: set_mono_suffix)
      with assms(2) show ?thesis by simp
    qed
  qed
qed

lemma suffix2_Cons:
  "suffix [a, b] (c # cs) \<Longrightarrow> suffix [a, b] cs \<or> (c = a \<and> cs = [b])"
  by (auto simp: suffix_Cons)

lemma lowerASCII_mem: "lowerASCII t = d \<Longrightarrow> c \<in> set t \<Longrightarrow> toLowerChar c \<in> set d"
  by (auto simp: lowerASCII_def)

lemma toLowerChar_punct [simp]:
  "toLowerChar CHR '')'' = CHR '')''" "toLowerChar CHR '';'' = CHR '';''"
  "toLowerChar CHR ''('' = CHR ''(''"
  by (simp_all add: toLowerChar_def lowerLetters_def upperLetters_def)

lemma reSpace_punct [simp]: "\<not> reSpace CHR '')''" "\<not> reSpace CHR '';''"
  by (simp_all add: reSpace_def)

lemma dirColonWith_split:
  assumes "dirColonWith d x = Some rest"
  shows "\<exists>p w. x = p @ w @ CHR '':'' # rest \<and> lowerASCII p = d \<and> (\<forall>c\<in>set w. reSpace c)"
proof -
  from assms have ci: "ciPrefix d x"
    and r: "dropWhile reSpace (drop (length d) x) = CHR '':'' # rest"
    by (auto simp: dirColonWith_def split: if_splits list.splits)
  let ?p = "take (length d) x"
  let ?w = "takeWhile reSpace (drop (length d) x)"
  have "x = ?p @ drop (length d) x" by simp
  also have "drop (length d) x = ?w @ dropWhile reSpace (drop (length d) x)" by simp
  finally have "x = ?p @ ?w @ CHR '':'' # rest" using r by simp
  moreover have "\<forall>c\<in>set ?w. reSpace c" by (auto dest: set_takeWhileD)
  moreover from ci have "lowerASCII ?p = d" by (simp add: ciPrefix_def)
  ultimately show ?thesis by blast
qed

lemma dirColonWith_clean:
  assumes "dirColonWith d x = Some rest" and sub: "set d \<subseteq> set ''inout''"
  shows "\<exists>m. x = m @ rest \<and> CHR '')'' \<notin> set m \<and> CHR '';'' \<notin> set m"
proof -
  from assms(1) obtain p w where x: "x = p @ w @ CHR '':'' # rest"
    and l: "lowerASCII p = d" and w: "\<forall>c\<in>set w. reSpace c"
    by (blast dest: dirColonWith_split)
  let ?m = "p @ w @ '':''"
  have nin: "c \<notin> set p" if "toLowerChar c = c" "c \<notin> set ''inout''" for c
  proof
    assume "c \<in> set p"
    with l have "toLowerChar c \<in> set d" by (rule lowerASCII_mem)
    with sub have "toLowerChar c \<in> set ''inout''" by (rule subsetD)
    with that show False by (simp only:)
  qed
  have "CHR '')'' \<notin> set p" by (rule nin) simp_all
  moreover have "CHR '';'' \<notin> set p" by (rule nin) simp_all
  moreover from w have "CHR '')'' \<notin> set w" "CHR '';'' \<notin> set w"
    using reSpace_punct by blast+
  ultimately have m: "CHR '')'' \<notin> set ?m" "CHR '';'' \<notin> set ?m" by auto
  from x have "x = ?m @ rest" by simp
  with m show ?thesis by blast
qed

lemma dirColonAt_split:
  assumes "dirColonAt x = Some rest"
  shows "\<exists>m. x = m @ rest \<and> CHR '')'' \<notin> set m \<and> CHR '';'' \<notin> set m"
proof -
  from assms consider "dirColonWith ''in'' x = Some rest" | "dirColonWith ''out'' x = Some rest"
    | "dirColonWith ''inout'' x = Some rest"
    by (auto simp: dirColonAt_def split: option.splits)
  then show ?thesis
  proof cases
    case 1
    then show ?thesis by (rule dirColonWith_clean) simp
  next
    case 2
    then show ?thesis by (rule dirColonWith_clean) simp
  next
    case 3
    then show ?thesis by (rule dirColonWith_clean) simp
  qed
qed

lemma directionReplace_suffix:
  "suffix '');'' x \<Longrightarrow> suffix '');'' (directionReplace u pw x)"
proof (induction u pw x rule: directionReplace.induct)
  case (1 u pw)
  then show ?case by simp
next
  case (2 u pw c cs)
  show ?case
  proof (cases "if pw then None else dirColonAt (c # cs)")
    case None
    from suffix2_Cons [OF "2.prems"] show ?thesis
    proof
      assume "suffix '');'' cs"
      with "2.IH"(1) None have "suffix '');'' (directionReplace u (isWordChar c) cs)" by simp
      with None show ?thesis by (simp add: suffix_Cons)
    next
      assume "c = CHR '')'' \<and> cs = '';''"
      with None show ?thesis by (simp add: dirColonAt_def dirColonWith_def ciPrefix_def)
    qed
  next
    case (Some rest)
    then have "dirColonAt (c # cs) = Some rest" by (simp split: if_splits)
    then obtain m where m: "c # cs = m @ rest" "CHR '')'' \<notin> set m" "CHR '';'' \<notin> set m"
      by (blast dest: dirColonAt_split)
    from "2.prems" m(1) have "suffix '');'' (m @ rest)" by simp
    then have "suffix '');'' rest" using m(2,3) by (rule suffix2_append)
    with "2.IH"(2) Some have "suffix '');'' (directionReplace u False rest)" by simp
    with Some show ?thesis by (auto intro!: suffix_appendI suffix_ConsI)
  qed
qed

lemma colonSpaceAt_split:
  assumes "colonSpaceAt x = Some rest"
  shows "\<exists>m. x = m @ rest \<and> CHR '')'' \<notin> set m \<and> CHR '';'' \<notin> set m"
proof -
  from assms obtain r where x: "x = CHR '':'' # r" and d: "dropWhile reSpace r = CHR ''&'' # rest"
    by (auto simp: colonSpaceAt_def split: list.splits if_splits)
  have "r = takeWhile reSpace r @ dropWhile reSpace r" by simp
  with x d have "x = ('':'' @ takeWhile reSpace r @ ''&'') @ rest" by simp
  moreover have "CHR '')'' \<notin> set ('':'' @ takeWhile reSpace r @ ''&'')"
    "CHR '';'' \<notin> set ('':'' @ takeWhile reSpace r @ ''&'')"
    by (auto dest: set_takeWhileD)
  ultimately show ?thesis by blast
qed

lemma colonSpaceReplace_suffix:
  "suffix '');'' x \<Longrightarrow> suffix '');'' (colonSpaceReplace x)"
proof (induction x rule: colonSpaceReplace.induct)
  case 1
  then show ?case by simp
next
  case (2 c cs)
  show ?case
  proof (cases "colonSpaceAt (c # cs)")
    case None
    from suffix2_Cons [OF "2.prems"] show ?thesis
    proof
      assume "suffix '');'' cs"
      with "2.IH"(1) None have "suffix '');'' (colonSpaceReplace cs)" by simp
      with None show ?thesis by (simp add: suffix_Cons)
    next
      assume "c = CHR '')'' \<and> cs = '';''"
      with None show ?thesis by (simp add: colonSpaceAt_def)
    qed
  next
    case (Some rest)
    then obtain m where m: "c # cs = m @ rest" "CHR '')'' \<notin> set m" "CHR '';'' \<notin> set m"
      by (blast dest: colonSpaceAt_split)
    from "2.prems" m(1) have "suffix '');'' (m @ rest)" by simp
    then have "suffix '');'' rest" using m(2,3) by (rule suffix2_append)
    with "2.IH"(2) Some have "suffix '');'' (colonSpaceReplace rest)" by simp
    with Some show ?thesis by (auto intro!: suffix_appendI suffix_ConsI)
  qed
qed

lemma commaSpaceReplace_suffix:
  "suffix '');'' x \<Longrightarrow> suffix '');'' (commaSpaceReplace x)"
proof (induction x rule: commaSpaceReplace.induct)
  case 1
  then show ?case by simp
next
  case (2 c cs)
  show ?case
  proof (cases "c = CHR '',''")
    case True
    from True have m: "CHR '')'' \<notin> set (c # takeWhile reSpace cs)"
      "CHR '';'' \<notin> set (c # takeWhile reSpace cs)"
      by (auto dest: set_takeWhileD)
    from "2.prems" have "suffix '');'' ((c # takeWhile reSpace cs) @ dropWhile reSpace cs)"
      by simp
    then have "suffix '');'' (dropWhile reSpace cs)" using m by (rule suffix2_append)
    with "2.IH"(1) True have "suffix '');'' (commaSpaceReplace (dropWhile reSpace cs))" by simp
    with True show ?thesis by (auto intro!: suffix_appendI suffix_ConsI)
  next
    case False
    from suffix2_Cons [OF "2.prems"] show ?thesis
    proof
      assume "suffix '');'' cs"
      with "2.IH"(2) False have "suffix '');'' (commaSpaceReplace cs)" by simp
      with False show ?thesis by (simp add: suffix_Cons)
    next
      assume "c = CHR '')'' \<and> cs = '';''"
      then show ?thesis by simp
    qed
  qed
qed

lemma isWordChar_plain:
  assumes "isWordChar c"
  shows "\<not> reSpace c" "\<not> isSpace c" "c \<noteq> CHR '':''" "c \<noteq> CHR '',''" "c \<noteq> CHR ''(''"
    "c \<noteq> CHR ''$''" "\<not> digit7 c"
  using assms
  by (auto simp: isWordChar_def lowerLetters_def upperLetters_def digits_def reSpace_def
      isSpace_def)

lemma isWordChar_paren [simp]: "\<not> isWordChar CHR ''(''"
  by (auto simp: isWordChar_def lowerLetters_def upperLetters_def digits_def)

lemma toLowerChar_letter_word:
  "toLowerChar c \<in> set ''inout'' \<Longrightarrow> isWordChar c"
  by (auto simp: toLowerChar_def isWordChar_def lowerLetters_def upperLetters_def
      split: if_splits)

lemma takeWhile_word_stop:
  assumes "\<forall>c\<in>set p. isWordChar c" "\<not> isWordChar x"
  shows "takeWhile isWordChar (p @ x # r) = p"
  using assms by (intro takeWhile_until) auto

lemma dirColonWith_word:
  assumes n: "\<forall>c\<in>set n. isWordChar c" and sub: "set d \<subseteq> set ''inout''"
  shows "dirColonWith d (n @ CHR ''('' # r) = None"
proof (rule ccontr)
  assume "dirColonWith d (n @ CHR ''('' # r) \<noteq> None"
  then obtain rest where "dirColonWith d (n @ CHR ''('' # r) = Some rest" by auto
  then obtain p w where x: "n @ CHR ''('' # r = p @ w @ CHR '':'' # rest"
    and l: "lowerASCII p = d" and w: "\<forall>c\<in>set w. reSpace c"
    by (blast dest: dirColonWith_split)
  have p: "\<forall>c\<in>set p. isWordChar c"
  proof
    fix c assume "c \<in> set p"
    with l have "toLowerChar c \<in> set d" by (rule lowerASCII_mem)
    with sub have "toLowerChar c \<in> set ''inout''" by (rule subsetD)
    then show "isWordChar c" by (rule toLowerChar_letter_word)
  qed
  obtain y ys where yw: "w @ CHR '':'' # rest = y # ys" "\<not> isWordChar y"
  proof (cases w)
    case Nil
    have "\<not> isWordChar CHR '':''" using isWordChar_plain(3) by blast
    with Nil that show ?thesis by simp
  next
    case (Cons a as)
    with w have "reSpace a" by simp
    then have "\<not> isWordChar a" using isWordChar_plain(1) by blast
    with Cons that show ?thesis by simp
  qed
  from n have "takeWhile isWordChar (n @ CHR ''('' # r) = n"
    by (rule takeWhile_word_stop) simp
  moreover from p yw(2) have "takeWhile isWordChar (p @ y # ys) = p"
    by (rule takeWhile_word_stop)
  ultimately have np: "n = p" using x yw(1) by simp
  with x yw(1) have y: "y = CHR ''(''" by simp
  show False
  proof (cases w)
    case Nil
    with yw(1) y show False by simp
  next
    case (Cons a as)
    with yw(1) y w show False by simp
  qed
qed

lemma dirColonAt_word:
  "\<forall>c\<in>set n. isWordChar c \<Longrightarrow> dirColonAt (n @ CHR ''('' # r) = None"
  by (simp add: dirColonAt_def dirColonWith_word)

lemma directionReplace_word_run:
  "\<forall>c\<in>set n. isWordChar c \<Longrightarrow>
     directionReplace u True (n @ CHR ''('' # r) = n @ CHR ''('' # directionReplace u False r"
  by (induction n) simp_all

lemma directionReplace_name:
  assumes "\<forall>c\<in>set n. isWordChar c"
  shows "directionReplace u False (n @ CHR ''('' # r) = n @ CHR ''('' # directionReplace u False r"
proof (cases n)
  case Nil
  from dirColonAt_word [of "[]" r] have "dirColonAt (CHR ''('' # r) = None" by simp
  with Nil show ?thesis by simp
next
  case (Cons c cs)
  from assms have "dirColonAt (n @ CHR ''('' # r) = None" by (rule dirColonAt_word)
  with Cons have "directionReplace u False (n @ CHR ''('' # r)
                    = c # directionReplace u (isWordChar c) (cs @ CHR ''('' # r)"
    by simp
  with Cons assms show ?thesis by (simp add: directionReplace_word_run)
qed

lemma colonSpaceReplace_prefix:
  "CHR '':'' \<notin> set p \<Longrightarrow> colonSpaceReplace (p @ r) = p @ colonSpaceReplace r"
  by (induction p) (auto simp: colonSpaceAt_def)

lemma commaSpaceReplace_prefix:
  "CHR '','' \<notin> set p \<Longrightarrow> commaSpaceReplace (p @ r) = p @ commaSpaceReplace r"
  by (induction p) auto

lemma expand_no_dollar: "CHR ''$'' \<notin> set t \<Longrightarrow> expand u t m0 m1 = t"
  by (simp add: expand.simps [of u t] cutStr_char_None)

lemma parmAt_semicolon [simp]: "parmAt '';'' = None"
  by (simp add: parmAt_def ciPrefix_def)

lemma parmRegexReplaceAll_call:
  assumes "lowerASCII kw = ''parm''" "CHR '')'' \<notin> set args" "CHR 0x0A \<notin> set args"
  shows "parmRegexReplaceAll u repl (kw @ ''('' @ args @ '');'')
           = expand u repl (kw @ ''('' @ args @ '')'') args @ '';''"
proof -
  from assms(1) obtain k ks where kw: "kw = k # ks" by (auto simp: lowerASCII_def)
  from assms have "parmAt (kw @ ''('' @ args @ '')'' @ '';'') = Some (args, '';'')"
    by (rule parmAt_call)
  then have at: "parmAt (k # ks @ ''('' @ args @ '');'') = Some (args, '';'')"
    using kw by simp
  have "take (length (k # ks @ ''('' @ args @ '');'') - length '';'') (k # ks @ ''('' @ args @ '');'')
          = kw @ ''('' @ args @ '')''"
    using kw by simp
  with at have "parmRegexReplaceAll u repl (k # ks @ ''('' @ args @ '');'')
           = expand u repl (kw @ ''('' @ args @ '')'') args @ parmRegexReplaceAll u repl '';''"
    by (simp only: parmRegexReplaceAll.simps option.case prod.case)
  then show ?thesis using kw by simp
qed

lemma activeSource_call:
  assumes "lowerASCII kw = ''parm''" "CHR 0x0A \<notin> set (args @ rest)"
  shows "activeSource (kw @ ''('' @ args @ '')'' @ rest) = kw @ ''('' @ args @ '')'' @ rest"
proof -
  from assms(1) obtain k ks where kw: "kw = k # ks" "toLowerChar k = CHR ''p''"
    by (auto simp: lowerASCII_def map_eq_Cons_conv)
  from assms(1) have "CHR 0x0A \<notin> set (lowerASCII kw)" by simp
  then have nl: "CHR 0x0A \<notin> set kw" by (rule lowerASCII_no_newline)
  from kw(2) have "\<not> digit7 k" "\<not> isSpace k" and k: "k \<noteq> CHR ''/''"
    by (auto simp: toLowerChar_p_cases isSpace_def)
  then have sw: "spaceWidth (k # (ks @ ''('' @ args @ '')'' @ rest)) = 0"
    by (intro spaceWidth_ASCII)
  from kw nl assms(2) have "CHR 0x0A \<notin> set (k # (ks @ ''('' @ args @ '')'' @ rest))" by auto
  with sw k have "activeSource (k # (ks @ ''('' @ args @ '')'' @ rest))
                 = k # (ks @ ''('' @ args @ '')'' @ rest)"
    by (intro activeSource_single_line)
  then show ?thesis using kw(1) by simp
qed

lemma parseParmString_call_raw:
  assumes kw: "lowerASCII kw = ''parm''"
    and args: "CHR '')'' \<notin> set args" "CHR 0x0A \<notin> set args" "CHR ''$'' \<notin> set args"
      "TrimSpace args \<noteq> []"
    and n: "\<forall>c\<in>set n. isWordChar c"
  shows "\<exists>body. RawSignature (parseParmString u (kw @ ''('' @ args @ '');'') n)
                  = n @ ''('' @ body @ '');''"
proof -
  let ?src = "kw @ ''('' @ args @ '');''"
  let ?repl = "n @ ''('' @ args @ '')''"
  let ?A1 = "directionReplace u False (args @ '');'')"
  let ?A2 = "colonSpaceReplace ?A1"
  let ?A3 = "commaSpaceReplace ?A2"
  from kw args(2) have act: "activeSource ?src = ?src"
    using activeSource_call [of kw args "'';''"] by simp
  from kw args(1,2) have find: "parmRegexFind (activeSource ?src) = Some args"
    using parmRegexFind_call [of kw args "'';''"] by simp
  from n have nd: "CHR ''$'' \<notin> set n" "CHR '':'' \<notin> set n" "CHR '','' \<notin> set n"
    using isWordChar_plain(6) [of "CHR ''$''"] isWordChar_plain(3) [of "CHR '':''"]
      isWordChar_plain(4) [of "CHR '',''"] by auto
  with args(3) have "CHR ''$'' \<notin> set ?repl" by simp
  then have ex: "expand u ?repl (kw @ ''('' @ args @ '')'') args = ?repl" by (rule expand_no_dollar)
  from kw args(1,2) have "parmRegexReplaceAll u ?repl ?src
           = expand u ?repl (kw @ ''('' @ args @ '')'') args @ '';''"
    by (rule parmRegexReplaceAll_call)
  with ex have raw0: "parmRegexReplaceAll u ?repl ?src = n @ CHR ''('' # (args @ '');'')" by simp
  from n have raw1: "directionReplace u False (n @ CHR ''('' # (args @ '');''))
                       = (n @ ''('') @ ?A1"
    by (simp add: directionReplace_name)
  from nd have raw2: "colonSpaceReplace ((n @ ''('') @ ?A1) = (n @ ''('') @ ?A2"
    by (intro colonSpaceReplace_prefix) simp
  from nd have raw3: "commaSpaceReplace ((n @ ''('') @ ?A2) = (n @ ''('') @ ?A3"
    by (intro commaSpaceReplace_prefix) simp
  have "suffix '');'' (args @ '');'')" by (simp add: suffix_def)
  then have "suffix '');'' ?A1" by (rule directionReplace_suffix)
  then have "suffix '');'' ?A2" by (rule colonSpaceReplace_suffix)
  then have "suffix '');'' ?A3" by (rule commaSpaceReplace_suffix)
  then obtain body where body: "?A3 = body @ '');''" by (auto simp: suffix_def)
  have "spaceWidth ((n @ ''('') @ body @ '');'') = 0"
  proof (cases n)
    case Nil
    have "spaceWidth (CHR ''('' # body @ '');'') = 0"
      by (rule spaceWidth_ASCII) (simp_all add: isSpace_def)
    with Nil show ?thesis by simp
  next
    case (Cons c cs)
    with n have "isWordChar c" by simp
    then have "\<not> digit7 c" "\<not> isSpace c" by (rule isWordChar_plain)+
    then have "spaceWidth (c # cs @ ''('' @ body @ '');'') = 0" by (rule spaceWidth_ASCII)
    with Cons show ?thesis by simp
  qed
  moreover have "spaceWidthLast (((n @ ''('') @ body @ '')'') @ [CHR '';'']) = 0"
    by (rule spaceWidthLast_ASCII) (simp_all add: isSpace_def)
  then have "spaceWidthLast ((n @ ''('') @ body @ '');'') = 0" by simp
  ultimately have trim: "TrimSpace ((n @ ''('') @ body @ '');'') = (n @ ''('') @ body @ '');''"
    by (rule TrimSpace_fixed)
  from find args(4) act
  have "RawSignature (parseParmString u ?src n)
          = TrimSpace (commaSpaceReplace (colonSpaceReplace (directionReplace u False
              (parmRegexReplaceAll u ?repl ?src))))"
    by (simp add: parseParmString_def Let_def)
  also have "\<dots> = TrimSpace ((n @ ''('') @ ?A3)"
    by (simp only: raw0 raw1 raw2 raw3)
  also have "\<dots> = n @ ''('' @ body @ '');''" using trim body by simp
  finally show ?thesis by blast
qed

lemma foldl_parmPart_not_empty: "foldl (parmPart u) acc segs = Some [] \<Longrightarrow> acc = Some []"
proof (induction segs arbitrary: acc)
  case Nil
  then show ?case by simp
next
  case (Cons seg segs)
  then have "parmPart u acc seg = Some []" by simp
  then show ?case
    by (auto simp: parmPart_segment appendSlice_def split: option.splits)
qed

lemma parseParmString_no_parameters:
  assumes "Parameters (parseParmString u s n) = Some []"
  shows "RawSignature (parseParmString u s n) = n @ ''();''"
proof (cases "parmRegexFind (activeSource s)")
  case None
  with assms show ?thesis by (simp add: parseParmString_def emptySignature_def)
next
  case (Some a)
  show ?thesis
  proof (cases "TrimSpace a = []")
    case True
    with Some show ?thesis by (simp add: parseParmString_def)
  next
    case False
    with Some assms have "foldl (parmPart u) None (Split a '','') = Some []"
      by (simp add: parseParmString_def Let_def)
    then have "(None :: ParameterDoc list option) = Some []" by (rule foldl_parmPart_not_empty)
    then show ?thesis by simp
  qed
qed

lemma isParmVariable_direction:
  assumes "\<forall>p\<in>set (elems acc). Direction p = ''IN''"
  shows "\<forall>p\<in>set (elems (isParmVariable acc v)). Direction p = ''IN''"
  using assms by (auto simp: isParmVariable_def Let_def appendSlice_def elems_def split: option.splits)

lemma foldl_isParmVariable_direction:
  "\<forall>p\<in>set (elems acc). Direction p = ''IN'' \<Longrightarrow>
     \<forall>p\<in>set (elems (foldl isParmVariable acc vs)). Direction p = ''IN''"
proof (induction vs arbitrary: acc)
  case Nil
  then show ?case by simp
next
  case (Cons v vs)
  from Cons.prems have "\<forall>p\<in>set (elems (isParmVariable acc v)). Direction p = ''IN''"
    by (rule isParmVariable_direction)
  then show ?case using Cons.IH by simp
qed

lemma extractFromIsParmVariables_direction:
  "\<forall>p\<in>set (elems (Parameters (extractFromIsParmVariables u obj n))). Direction p = ''IN''"
proof (cases "FindOne obj variablesPartPath")
  case None
  then show ?thesis by (simp add: extractFromIsParmVariables_def emptySignature_def elems_def)
next
  case (Some part)
  have "\<forall>p\<in>set (elems (foldl isParmVariable None (Find part variablePath))). Direction p = ''IN''"
    by (rule foldl_isParmVariable_direction) (simp add: elems_def)
  with Some show ?thesis
    by (simp add: extractFromIsParmVariables_def emptySignature_def Let_def)
      (simp add: elems_def)
qed

lemma ToLower_IN [simp]: "ToLower u ''IN'' = ''in''"
  by (simp add: ToLower_def isASCII_def)

lemma buildRawSignature_IN:
  assumes "ps \<noteq> []" "\<forall>p\<in>set ps. Direction p = ''IN''"
  shows "buildRawSignature u n ps
           = n @ ''('' @ Join (map (\<lambda>p. ''in:&'' @ ParameterDoc.Name p) ps) '', '' @ '');''"
proof -
  have m: "map (\<lambda>p. ToLower u (Direction p) @ '':&'' @ ParameterDoc.Name p) ps
             = map (\<lambda>p. ''in:&'' @ ParameterDoc.Name p) ps"
    by (rule map_cong) (simp_all add: assms(2))
  from assms(1) have "buildRawSignature u n ps
           = n @ ''('' @ Join (map (\<lambda>p. ToLower u (Direction p) @ '':&'' @ ParameterDoc.Name p) ps)
                            '', '' @ '');''"
    by (simp add: buildRawSignature_def)
  then show ?thesis by (simp only: m)
qed

section \<open>Claims\<close>

text \<open>
  C1: when the rules source, without its comment lines, has a \<^verbatim>\<open>parm(...)\<close> call with the
  argument list \<open>args\<close>, not blank, the parameters of the ParmRule strategy are those of
  the comma-separated segments of \<open>args\<close> that match the pattern, one for each, in their
  order; the other segments contribute nothing. A segment matches when its trimmed text is
  a direction keyword in any letter case, a colon and an ampersand with optional white
  space before each, and a name; the parameter has the direction in upper case, which is
  \<^verbatim>\<open>IN\<close>, \<^verbatim>\<open>OUT\<close> or \<^verbatim>\<open>INOUT\<close>, and the name without the ampersand. A source that is
  \<^verbatim>\<open>parm\<close> in any letter case and the parenthesised list has this list as \<open>args\<close>.
\<close>

theorem parmRule_parameters:
  "(parmRegexFind (activeSource source) = Some args \<and> TrimSpace args \<noteq> [] \<longrightarrow>
      elems (Parameters (parseParmString u source n))
        = List.map_filter (segmentParameter u) (Split args '',''))
   \<and> (segmentParameter u seg = Some p \<longleftrightarrow>
        (\<exists>dir w1 w2 name.
           TrimSpace seg = dir @ w1 @ '':'' @ w2 @ ''&'' @ name \<and> isDirection dir
           \<and> (\<forall>c\<in>set (w1 @ w2). reSpace c) \<and> name \<noteq> [] \<and> CHR 0x0A \<notin> set name
           \<and> p = \<lparr>ParameterDoc.Name = TrimSpace name, Direction = ToUpper u dir, Type = [],
                   Description = []\<rparr>))
   \<and> (isDirection d \<longrightarrow>
        ToUpper u d = ''IN'' \<or> ToUpper u d = ''OUT'' \<or> ToUpper u d = ''INOUT'')
   \<and> (lowerASCII kw = ''parm'' \<and> CHR '')'' \<notin> set args \<and> CHR 0x0A \<notin> set (args @ rest) \<longrightarrow>
        parmRegexFind (activeSource (kw @ ''('' @ args @ '')'' @ rest)) = Some args)"
proof (intro conjI impI)
  assume "parmRegexFind (activeSource source) = Some args \<and> TrimSpace args \<noteq> []"
  then show "elems (Parameters (parseParmString u source n))
        = List.map_filter (segmentParameter u) (Split args '','')"
    by (simp add: parseParmString_elems)
next
  show "segmentParameter u seg = Some p \<longleftrightarrow>
        (\<exists>dir w1 w2 name.
           TrimSpace seg = dir @ w1 @ '':'' @ w2 @ ''&'' @ name \<and> isDirection dir
           \<and> (\<forall>c\<in>set (w1 @ w2). reSpace c) \<and> name \<noteq> [] \<and> CHR 0x0A \<notin> set name
           \<and> p = \<lparr>ParameterDoc.Name = TrimSpace name, Direction = ToUpper u dir, Type = [],
                   Description = []\<rparr>)"
    by (rule segmentParameter_iff)
next
  assume "isDirection d"
  then show "ToUpper u d = ''IN'' \<or> ToUpper u d = ''OUT'' \<or> ToUpper u d = ''INOUT''"
    by (rule isDirection_ToUpper(2))
next
  assume "lowerASCII kw = ''parm'' \<and> CHR '')'' \<notin> set args \<and> CHR 0x0A \<notin> set (args @ rest)"
  then show "parmRegexFind (activeSource (kw @ ''('' @ args @ '')'' @ rest)) = Some args"
    by (intro parmRegexFind_call) blast+
qed

theorem parmRule_parameters_witness:
  "\<forall>u. elems (Parameters (parseParmString u
        (''Parm'' @ ''('' @ ''In : &X, bogus, out:&Y,, inout:& Z'' @ '')'' @ '';'') ''P''))
     = [\<lparr>ParameterDoc.Name = ''X'', Direction = ''IN'', Type = [], Description = []\<rparr>,
        \<lparr>ParameterDoc.Name = ''Y'', Direction = ''OUT'', Type = [], Description = []\<rparr>,
        \<lparr>ParameterDoc.Name = ''Z'', Direction = ''INOUT'', Type = [], Description = []\<rparr>]
   \<and> segmentParameter u '' bogus'' = None
   \<and> segmentParameter u (''in:&'' @ [CHR 0xC2, CHR 0xA0] @ ''A'' @ [CHR 0xC2, CHR 0xA0])
     = Some \<lparr>ParameterDoc.Name = ''A'', Direction = ''IN'', Type = [], Description = []\<rparr>
   \<and> ToUpper u ''InOut'' = ''INOUT''"
  (is "\<forall>u. ?W u")
proof
  fix u
  let ?args = "''In : &X, bogus, out:&Y,, inout:& Z''"
  let ?nbsp = "[CHR 0xC2, CHR 0xA0]"
  have a: "lowerASCII ''Parm'' = ''parm''" "CHR '')'' \<notin> set ?args"
    "CHR 0x0A \<notin> set (?args @ '';'')" "TrimSpace ?args \<noteq> []" "isDirection ''InOut''"
    by code_simp+
  have b: "List.map_filter (segmentParameter u) (Split ?args '','')
     = [\<lparr>ParameterDoc.Name = ''X'', Direction = ''IN'', Type = [], Description = []\<rparr>,
        \<lparr>ParameterDoc.Name = ''Y'', Direction = ''OUT'', Type = [], Description = []\<rparr>,
        \<lparr>ParameterDoc.Name = ''Z'', Direction = ''INOUT'', Type = [], Description = []\<rparr>]"
    by code_simp
  have c: "segmentParameter u '' bogus'' = None" by code_simp
  have d: "ToUpper u ''InOut'' \<noteq> ''IN''" "ToUpper u ''InOut'' \<noteq> ''OUT''" by code_simp+
  have e: "TrimSpace (''in:&'' @ ?nbsp @ ''A'' @ ?nbsp) = ''in'' @ [] @ '':'' @ [] @ ''&'' @ ?nbsp @ ''A''"
    "isDirection ''in''" "\<forall>c\<in>set ([] @ []). reSpace c" "?nbsp @ ''A'' \<noteq> []"
    "CHR 0x0A \<notin> set (?nbsp @ ''A'')" "TrimSpace (?nbsp @ ''A'') = ''A''" "ToUpper u ''in'' = ''IN''"
    by code_simp+
  let ?src = "''Parm'' @ ''('' @ ?args @ '')'' @ '';''"
  let ?a = "\<lparr>ParameterDoc.Name = TrimSpace (?nbsp @ ''A''), Direction = ToUpper u ''in'', Type = [],
             Description = []\<rparr>"
  note inst = parmRule_parameters [of ?src ?args u "''P''" "''in:&'' @ ?nbsp @ ''A'' @ ?nbsp" ?a
      "''InOut''" "''Parm''" "'';''"]
  from inst a have f: "parmRegexFind (activeSource (''Parm'' @ ''('' @ ?args @ '')'' @ '';'')) = Some ?args"
    by blast
  from inst f a(4)
  have "elems (Parameters (parseParmString u (''Parm'' @ ''('' @ ?args @ '')'' @ '';'') ''P''))
          = List.map_filter (segmentParameter u) (Split ?args '','')"
    by blast
  moreover from inst a(5) d have "ToUpper u ''InOut'' = ''INOUT''" by blast
  moreover from inst e(1-5) have "segmentParameter u (''in:&'' @ ?nbsp @ ''A'' @ ?nbsp) = Some ?a"
    by blast
  ultimately show "?W u" using b c e(6,7) by simp
qed

text \<open>
  C2 (as stated): with a rules source that is present and has no \<^verbatim>\<open>parm(...)\<close> match the
  IsParm strategy is not attempted. It is: the rules of this object are \<^verbatim>\<open>Msg(&Text);\<close>
  and the result comes from its variables.
\<close>

theorem IsParm_attempted_without_parm_match:
  "\<forall>u. GetText docRulesWithoutParm rulesSourcePath = ''Msg(&Text);''
   \<and> parmRegexFind (activeSource (GetText docRulesWithoutParm rulesSourcePath)) = None
   \<and> ExtractionMode (ExtractProcedureSignature u docRulesWithoutParm ''GetUser'') = ''IsParm''
   \<and> lenSlice (Parameters (ExtractProcedureSignature u docRulesWithoutParm ''GetUser'')) = 2"
  by (rule allI) code_simp

text \<open>
  C2 (amended): whenever the rules source has no \<^verbatim>\<open>parm(...)\<close> match after the comment
  lines are stripped, be it absent or present, the resolver goes on to the IsParm
  strategy: its signature is the result, in mode \<^verbatim>\<open>IsParm\<close>, when it has parameters, and
  the empty signature in mode \<^verbatim>\<open>None\<close> otherwise. When the rules source has a
  \<^verbatim>\<open>parm(...)\<close> call with a blank argument list, the result is the empty signature in
  mode \<^verbatim>\<open>ParmRule\<close>, whatever the variables are.
\<close>

theorem IsParm_fallback:
  "(parmRegexFind (activeSource (GetText obj rulesSourcePath)) = None \<longrightarrow>
      ExtractProcedureSignature u obj n =
        (if Parameters (extractFromIsParmVariables u obj n) \<noteq> None
         then (extractFromIsParmVariables u obj n)\<lparr>ExtractionMode := ''IsParm''\<rparr>
         else \<lparr>Parameters = Some [], RawSignature = n @ ''();'', ExtractionMode = ''None''\<rparr>))
   \<and> (parmRegexFind (activeSource (GetText obj rulesSourcePath)) = Some args
        \<and> TrimSpace args = [] \<longrightarrow>
      ExtractProcedureSignature u obj n =
        \<lparr>Parameters = Some [], RawSignature = n @ ''();'', ExtractionMode = ''ParmRule''\<rparr>)"
proof (intro conjI impI)
  assume "parmRegexFind (activeSource (GetText obj rulesSourcePath)) = None"
  then have "extractFromParmRule u obj n = emptySignature"
    by (rule extractFromParmRule_no_match)
  then show "ExtractProcedureSignature u obj n =
        (if Parameters (extractFromIsParmVariables u obj n) \<noteq> None
         then (extractFromIsParmVariables u obj n)\<lparr>ExtractionMode := ''IsParm''\<rparr>
         else \<lparr>Parameters = Some [], RawSignature = n @ ''();'', ExtractionMode = ''None''\<rparr>)"
    by (simp add: ExtractProcedureSignature_def emptySignature_def Let_def)
next
  assume "parmRegexFind (activeSource (GetText obj rulesSourcePath)) = Some args
            \<and> TrimSpace args = []"
  then have "extractFromParmRule u obj n
           = \<lparr>Parameters = Some [], RawSignature = n @ ''();'', ExtractionMode = []\<rparr>"
    by (simp add: extractFromParmRule_blank)
  then show "ExtractProcedureSignature u obj n =
        \<lparr>Parameters = Some [], RawSignature = n @ ''();'', ExtractionMode = ''ParmRule''\<rparr>"
    by (simp add: ExtractProcedureSignature_def Let_def)
qed

theorem IsParm_fallback_witness:
  "\<forall>u. ExtractProcedureSignature u docRulesWithoutParm ''GetUser''
     = (extractFromIsParmVariables u docRulesWithoutParm ''GetUser'')\<lparr>ExtractionMode := ''IsParm''\<rparr>
   \<and> ExtractProcedureSignature u docCommentedParm ''P''
     = \<lparr>Parameters = Some [], RawSignature = ''P();'', ExtractionMode = ''None''\<rparr>
   \<and> ExtractProcedureSignature u (document [rulesPart ''parm( )'', variablesPart userVariables]) ''P''
     = \<lparr>Parameters = Some [], RawSignature = ''P();'', ExtractionMode = ''ParmRule''\<rparr>"
  (is "\<forall>u. ?W u")
proof
  fix u
  have a: "parmRegexFind (activeSource (GetText docRulesWithoutParm rulesSourcePath)) = None"
    and b: "Parameters (extractFromIsParmVariables u docRulesWithoutParm ''GetUser'') \<noteq> None"
    and c: "parmRegexFind (activeSource (GetText docCommentedParm rulesSourcePath)) = None"
    and d: "Parameters (extractFromIsParmVariables u docCommentedParm ''P'') = None"
    and e: "parmRegexFind (activeSource
              (GetText (document [rulesPart ''parm( )'', variablesPart userVariables])
                 rulesSourcePath)) = Some '' ''"
    and f: "TrimSpace '' '' = []"
    by code_simp+
  from IsParm_fallback [of docRulesWithoutParm u "''GetUser''" "[]"] a b
  have "ExtractProcedureSignature u docRulesWithoutParm ''GetUser''
     = (extractFromIsParmVariables u docRulesWithoutParm ''GetUser'')\<lparr>ExtractionMode := ''IsParm''\<rparr>"
    by simp
  moreover from IsParm_fallback [of docCommentedParm u "''P''" "[]"] c d
  have "ExtractProcedureSignature u docCommentedParm ''P''
     = \<lparr>Parameters = Some [], RawSignature = ''P();'', ExtractionMode = ''None''\<rparr>"
    by simp
  moreover
  from IsParm_fallback [of "document [rulesPart ''parm( )'', variablesPart userVariables]"
      u "''P''" "'' ''"] e f
  have "ExtractProcedureSignature u (document [rulesPart ''parm( )'', variablesPart userVariables]) ''P''
     = \<lparr>Parameters = Some [], RawSignature = ''P();'', ExtractionMode = ''ParmRule''\<rparr>"
    by simp
  ultimately show "?W u" by blast
qed

text \<open>
  C3 (as stated): every raw signature ends in \<^verbatim>\<open>();\<close> or \<^verbatim>\<open>(...);\<close>. With a comment after
  the rule on its line the raw signature of the ParmRule strategy is the rule and the
  comment: the replacement works on the whole rules source.
\<close>

theorem RawSignature_keeps_trailing_text:
  "\<forall>u. ExtractProcedureSignature u (document [rulesPart ''Parm(in:&X); // key'']) ''P''
     = \<lparr>Parameters = Some [\<lparr>ParameterDoc.Name = ''X'', Direction = ''IN'', Type = [],
                               Description = []\<rparr>],
        RawSignature = ''P(in:&X); // key'', ExtractionMode = ''ParmRule''\<rparr>
   \<and> \<not> suffix '');'' (RawSignature
         (ExtractProcedureSignature u (document [rulesPart ''Parm(in:&X); // key'']) ''P''))"
  by (rule allI) code_simp

text \<open>
  C3 (amended): a signature of the resolver without parameters has the raw signature
  \<^verbatim>\<open><Name>();\<close>; in mode \<^verbatim>\<open>IsParm\<close> the raw signature is \<^verbatim>\<open><Name>(\<close>, the parameters as
  \<^verbatim>\<open>in:&<name>\<close> (the direction of this strategy is always \<^verbatim>\<open>IN\<close>), joined by a comma
  and a blank, and \<^verbatim>\<open>);\<close>; and when the rules source is \<^verbatim>\<open>parm(<args>);\<close> and nothing else, with
  \<^verbatim>\<open>parm\<close> in any letter case, an argument list that is not blank and has no \<^verbatim>\<open>$\<close>,
  and a name of letters, digits and underscores, the raw signature of the ParmRule
  strategy is \<^verbatim>\<open><Name>(\<close>, some text and \<^verbatim>\<open>);\<close>.
\<close>

theorem RawSignature_shape:
  "(elems (Parameters (ExtractProcedureSignature u obj n)) = [] \<longrightarrow>
      RawSignature (ExtractProcedureSignature u obj n) = n @ ''();'')
   \<and> (ExtractionMode (ExtractProcedureSignature u obj n) = ''IsParm'' \<longrightarrow>
      RawSignature (ExtractProcedureSignature u obj n)
        = n @ ''(''
            @ Join (map (\<lambda>p. ''in:&'' @ ParameterDoc.Name p)
                        (elems (Parameters (ExtractProcedureSignature u obj n)))) '', ''
            @ '');'')
   \<and> (lowerASCII kw = ''parm'' \<and> CHR '')'' \<notin> set args \<and> CHR 0x0A \<notin> set args
        \<and> CHR ''$'' \<notin> set args \<and> TrimSpace args \<noteq> [] \<and> (\<forall>c\<in>set n. isWordChar c) \<longrightarrow>
      (\<exists>body. RawSignature (parseParmString u (kw @ ''('' @ args @ '');'') n)
                 = n @ ''('' @ body @ '');''))"
proof (intro conjI impI)
  assume e: "elems (Parameters (ExtractProcedureSignature u obj n)) = []"
  consider
    (rule) "Parameters (extractFromParmRule u obj n) \<noteq> None"
      "ExtractProcedureSignature u obj n = (extractFromParmRule u obj n)\<lparr>ExtractionMode := ''ParmRule''\<rparr>"
  | (isparm) "Parameters (extractFromIsParmVariables u obj n) \<noteq> None"
      "ExtractProcedureSignature u obj n
         = (extractFromIsParmVariables u obj n)\<lparr>ExtractionMode := ''IsParm''\<rparr>"
  | (none) "ExtractProcedureSignature u obj n
         = \<lparr>Parameters = Some [], RawSignature = n @ ''();'', ExtractionMode = ''None''\<rparr>"
    using ExtractProcedureSignature_cases [of u obj n] by blast
  then show "RawSignature (ExtractProcedureSignature u obj n) = n @ ''();''"
  proof cases
    case rule
    with e have p: "Parameters (extractFromParmRule u obj n) = Some []"
      by (auto simp: elems_def)
    then have "extractFromParmRule u obj n = parseParmString u (GetText obj rulesSourcePath) n"
      by (auto simp: extractFromParmRule_def Let_def emptySignature_def split: if_splits)
    with p have "RawSignature (extractFromParmRule u obj n) = n @ ''();''"
      by (simp add: parseParmString_no_parameters)
    with rule show ?thesis by simp
  next
    case isparm
    from extractFromIsParmVariables_cases [of u obj n] isparm(1)
    obtain ps where "ps \<noteq> []" "Parameters (extractFromIsParmVariables u obj n) = Some ps"
      by (auto simp: emptySignature_def)
    with isparm e show ?thesis by (simp add: elems_def)
  next
    case none
    then show ?thesis by simp
  qed
next
  assume m: "ExtractionMode (ExtractProcedureSignature u obj n) = ''IsParm''"
  with ExtractProcedureSignature_cases [of u obj n]
  have isp: "Parameters (extractFromIsParmVariables u obj n) \<noteq> None"
    "ExtractProcedureSignature u obj n
       = (extractFromIsParmVariables u obj n)\<lparr>ExtractionMode := ''IsParm''\<rparr>"
    by auto
  from extractFromIsParmVariables_cases [of u obj n] isp(1)
  obtain ps where ps: "ps \<noteq> []"
    "extractFromIsParmVariables u obj n =
       \<lparr>Parameters = Some ps, RawSignature = buildRawSignature u n ps, ExtractionMode = []\<rparr>"
    by (auto simp: emptySignature_def)
  moreover from ps(2) extractFromIsParmVariables_direction [of u obj n]
  have "\<forall>p\<in>set ps. Direction p = ''IN''" by (simp add: elems_def)
  with ps(1) have "buildRawSignature u n ps
           = n @ ''('' @ Join (map (\<lambda>p. ''in:&'' @ ParameterDoc.Name p) ps) '', '' @ '');''"
    by (rule buildRawSignature_IN)
  ultimately show "RawSignature (ExtractProcedureSignature u obj n)
        = n @ ''(''
            @ Join (map (\<lambda>p. ''in:&'' @ ParameterDoc.Name p)
                        (elems (Parameters (ExtractProcedureSignature u obj n)))) '', ''
            @ '');''"
    using isp(2) by (simp add: elems_def)
next
  assume "lowerASCII kw = ''parm'' \<and> CHR '')'' \<notin> set args \<and> CHR 0x0A \<notin> set args
        \<and> CHR ''$'' \<notin> set args \<and> TrimSpace args \<noteq> [] \<and> (\<forall>c\<in>set n. isWordChar c)"
  then show "\<exists>body. RawSignature (parseParmString u (kw @ ''('' @ args @ '');'') n)
                 = n @ ''('' @ body @ '');''"
    by (intro parseParmString_call_raw) blast+
qed

theorem RawSignature_shape_witness:
  "\<forall>u. RawSignature (ExtractProcedureSignature u docNoParams ''DoSomething'') = ''DoSomething();''
   \<and> RawSignature (ExtractProcedureSignature u docIsParm ''GetUser'')
       = ''GetUser(in:&UserID, in:&UserName);''
   \<and> (\<exists>body. RawSignature (parseParmString u
                 (''Parm'' @ ''('' @ ''In : &UserID,out:&UserName'' @ '');'') ''GetUser'')
               = ''GetUser'' @ ''('' @ body @ '');'')
   \<and> RawSignature (parseParmString u ''Parm(In : &UserID,out:&UserName);'' ''GetUser'')
       = ''GetUser(in:&UserID, out:&UserName);''"
  (is "\<forall>u. ?W u")
proof
  fix u
  let ?args = "''In : &UserID,out:&UserName''"
  have a: "elems (Parameters (ExtractProcedureSignature u docNoParams ''DoSomething'')) = []"
    and b: "ExtractionMode (ExtractProcedureSignature u docIsParm ''GetUser'') = ''IsParm''"
    and c: "Join (map (\<lambda>p. ''in:&'' @ ParameterDoc.Name p)
                   (elems (Parameters (ExtractProcedureSignature u docIsParm ''GetUser'')))) '', ''
              = ''in:&UserID, in:&UserName''"
    and d: "lowerASCII ''Parm'' = ''parm''" "CHR '')'' \<notin> set ?args" "CHR 0x0A \<notin> set ?args"
      "CHR ''$'' \<notin> set ?args" "TrimSpace ?args \<noteq> []" "\<forall>c\<in>set ''GetUser''. isWordChar c"
    and e: "RawSignature (parseParmString u ''Parm(In : &UserID,out:&UserName);'' ''GetUser'')
              = ''GetUser(in:&UserID, out:&UserName);''"
    by code_simp+
  from RawSignature_shape [of u docNoParams "''DoSomething''" "[]" "[]"] a
  have "RawSignature (ExtractProcedureSignature u docNoParams ''DoSomething'') = ''DoSomething'' @ ''();''"
    by blast
  moreover
  note inst = RawSignature_shape [of u docIsParm "''GetUser''" "''Parm''" ?args]
  from inst b
  have "RawSignature (ExtractProcedureSignature u docIsParm ''GetUser'')
        = ''GetUser'' @ ''(''
            @ Join (map (\<lambda>p. ''in:&'' @ ParameterDoc.Name p)
                        (elems (Parameters (ExtractProcedureSignature u docIsParm ''GetUser'')))) '', ''
            @ '');''"
    by blast
  moreover from inst d
  have "\<exists>body. RawSignature (parseParmString u (''Parm'' @ ''('' @ ?args @ '');'') ''GetUser'')
                 = ''GetUser'' @ ''('' @ body @ '');''"
    by blast
  ultimately show "?W u" using c e by simp
qed

text \<open>
  C4 (as stated): \<^verbatim>\<open>cleanType\<close> is idempotent on every input. It is not: of
  \<^verbatim>\<open>"a:b:c"\<close> the first call keeps \<^verbatim>\<open>"b:c"\<close>, everything after the first colon, and the
  second call cuts that again.
\<close>

theorem cleanType_not_idempotent:
  "cleanType (cleanType ''a:b:c'') \<noteq> cleanType ''a:b:c''"
  by code_simp

text \<open>
  C4 (amended): \<^verbatim>\<open>cleanType(cleanType(x)) == cleanType(x)\<close> holds exactly when
  \<^verbatim>\<open>cleanType(x)\<close> has no white space at its ends (\<^verbatim>\<open>TrimSpace\<close> leaves it as it is) and
  either contains no colon or starts with \<^verbatim>\<open>Attribute:\<close>; the three examples of the
  specification hold.
\<close>

theorem cleanType_idempotent_iff:
  "(cleanType (cleanType x) = cleanType x \<longleftrightarrow>
      TrimSpace (cleanType x) = cleanType x \<and>
      (\<not> Contains (cleanType x) '':'' \<or> HasPrefix (cleanType x) ''Attribute:''))
   \<and> cleanType ''bas:Boolean'' = ''Boolean''
   \<and> cleanType ''sdt:Messages, GeneXus.Common'' = ''Messages''
   \<and> cleanType ''Attribute:UserId'' = ''Attribute:UserId''"
proof -
  have ex1: "cleanType ''bas:Boolean'' = ''Boolean''"
    by code_simp
  have ex2: "cleanType ''sdt:Messages, GeneXus.Common'' = ''Messages''"
    by code_simp
  have ex3: "cleanType ''Attribute:UserId'' = ''Attribute:UserId''"
    by code_simp
  from cleanType_fixed_iff [of "cleanType x"] ex1 ex2 ex3 show ?thesis by blast
qed

theorem cleanType_idempotent_iff_witness:
  "cleanType (cleanType ''bc:User'') = cleanType ''bc:User''
   \<and> TrimSpace (cleanType ''bc:User'') = ''User''
   \<and> \<not> Contains (cleanType ''bc:User'') '':''"
proof -
  have c: "cleanType ''bc:User'' = ''User''"
    by code_simp
  have t: "TrimSpace ''User'' = ''User''"
    by code_simp
  have n: "\<not> Contains ''User'' '':''"
    by (simp add: Contains_def)
  from cleanType_idempotent_iff [of "''bc:User''"] c t n show ?thesis by simp
qed





text \<open>
  C8: a line of the rules source whose trimmed content begins with \<^verbatim>\<open>//\<close> is stripped
  before the \<^verbatim>\<open>parm(...)\<close> match: the source with such a line among its lines is parsed
  to what the source without it is parsed to. An object whose rules source is the line
  \<^verbatim>\<open>// Parm(in:&X);\<close> and whose variables give no parameter resolves in mode
  \<^verbatim>\<open>None\<close>.
\<close>

theorem comment_lines_stripped:
  "((\<forall>l\<in>set (ls1 @ [c] @ ls2). CHR 0x0A \<notin> set l) \<and> HasPrefix (TrimSpace c) ''//'' \<longrightarrow>
      parseParmString u (Join (ls1 @ [c] @ ls2) [CHR 0x0A]) n
        = parseParmString u (Join (ls1 @ ls2) [CHR 0x0A]) n)
   \<and> (GetText obj rulesSourcePath = ''// Parm(in:&X);''
        \<and> Parameters (extractFromIsParmVariables u obj n) = None \<longrightarrow>
      ExtractProcedureSignature u obj n
        = \<lparr>Parameters = Some [], RawSignature = n @ ''();'', ExtractionMode = ''None''\<rparr>)"
proof (intro conjI impI)
  assume "(\<forall>l\<in>set (ls1 @ [c] @ ls2). CHR 0x0A \<notin> set l) \<and> HasPrefix (TrimSpace c) ''//''"
  then have "activeSource (Join (ls1 @ [c] @ ls2) [CHR 0x0A])
               = activeSource (Join (ls1 @ ls2) [CHR 0x0A])"
    by (intro activeSource_drop_comment) blast+
  then show "parseParmString u (Join (ls1 @ [c] @ ls2) [CHR 0x0A]) n
        = parseParmString u (Join (ls1 @ ls2) [CHR 0x0A]) n"
    by (rule parseParmString_activeSource)
next
  assume a: "GetText obj rulesSourcePath = ''// Parm(in:&X);''
        \<and> Parameters (extractFromIsParmVariables u obj n) = None"
  have "activeSource ''// Parm(in:&X);'' = []"
    by code_simp
  with a have "parmRegexFind (activeSource (GetText obj rulesSourcePath)) = None" by simp
  then have "extractFromParmRule u obj n = emptySignature"
    by (rule extractFromParmRule_no_match)
  with a show "ExtractProcedureSignature u obj n
        = \<lparr>Parameters = Some [], RawSignature = n @ ''();'', ExtractionMode = ''None''\<rparr>"
    by (simp add: ExtractProcedureSignature_def emptySignature_def Let_def)
qed

theorem comment_lines_stripped_witness:
  "\<forall>u. parseParmString u (Join ([''Parm(in:&A);''] @ [''  // Parm(out:&X);''] @ [''Msg(1);'']) [CHR 0x0A]) ''P''
     = parseParmString u (Join ([''Parm(in:&A);''] @ [''Msg(1);'']) [CHR 0x0A]) ''P''
   \<and> elems (Parameters (parseParmString u (Join ([''Parm(in:&A);''] @ [''Msg(1);'']) [CHR 0x0A]) ''P''))
     = [\<lparr>ParameterDoc.Name = ''A'', Direction = ''IN'', Type = [], Description = []\<rparr>]
   \<and> ExtractProcedureSignature u docCommentedParm ''P''
     = \<lparr>Parameters = Some [], RawSignature = ''P();'', ExtractionMode = ''None''\<rparr>"
  (is "\<forall>u. ?W u")
proof
  fix u
  have a: "\<forall>l\<in>set ([''Parm(in:&A);''] @ [''  // Parm(out:&X);''] @ [''Msg(1);'']). CHR 0x0A \<notin> set l"
    by simp
  have b: "HasPrefix (TrimSpace ''  // Parm(out:&X);'') ''//''"
    by code_simp
  have c: "GetText docCommentedParm rulesSourcePath = ''// Parm(in:&X);''"
    and d: "Parameters (extractFromIsParmVariables u docCommentedParm ''P'') = None"
    by code_simp+
  have e: "elems (Parameters (parseParmString u (Join ([''Parm(in:&A);''] @ [''Msg(1);'']) [CHR 0x0A]) ''P''))
     = [\<lparr>ParameterDoc.Name = ''A'', Direction = ''IN'', Type = [], Description = []\<rparr>]"
    by code_simp
  note inst = comment_lines_stripped [of "[''Parm(in:&A);'']" "''  // Parm(out:&X);''"
      "[''Msg(1);'']" u "''P''" docCommentedParm]
  from inst a b
  have "parseParmString u (Join ([''Parm(in:&A);''] @ [''  // Parm(out:&X);''] @ [''Msg(1);'']) [CHR 0x0A]) ''P''
     = parseParmString u (Join ([''Parm(in:&A);''] @ [''Msg(1);'']) [CHR 0x0A]) ''P''"
    by blast
  moreover from inst c d
  have "ExtractProcedureSignature u docCommentedParm ''P''
     = \<lparr>Parameters = Some [], RawSignature = ''P'' @ ''();'', ExtractionMode = ''None''\<rparr>"
    by blast
  ultimately show "?W u" using e by simp
qed

text \<open>
  C9: the signature \<^verbatim>\<open>ExtractProcedureSignature\<close> returns has a parameter slice that is
  not nil and one of the three extraction modes; in mode \<^verbatim>\<open>None\<close> it has no parameter
  and the raw signature is the name followed by \<^verbatim>\<open>();\<close>; in mode \<^verbatim>\<open>IsParm\<close> it has a
  parameter.
\<close>

theorem ExtractProcedureSignature_modes:
  "Parameters (ExtractProcedureSignature u obj n) \<noteq> None
   \<and> (ExtractionMode (ExtractProcedureSignature u obj n) = ''ParmRule''
      \<or> ExtractionMode (ExtractProcedureSignature u obj n) = ''IsParm''
      \<or> ExtractionMode (ExtractProcedureSignature u obj n) = ''None'')
   \<and> (ExtractionMode (ExtractProcedureSignature u obj n) = ''None'' \<longrightarrow>
        Parameters (ExtractProcedureSignature u obj n) = Some []
        \<and> RawSignature (ExtractProcedureSignature u obj n) = n @ ''();'')
   \<and> (ExtractionMode (ExtractProcedureSignature u obj n) = ''IsParm'' \<longrightarrow>
        0 < lenSlice (Parameters (ExtractProcedureSignature u obj n)))"
proof -
  consider
    (rule) "Parameters (extractFromParmRule u obj n) \<noteq> None"
      "ExtractProcedureSignature u obj n = (extractFromParmRule u obj n)\<lparr>ExtractionMode := ''ParmRule''\<rparr>"
  | (isparm) "Parameters (extractFromIsParmVariables u obj n) \<noteq> None"
      "ExtractProcedureSignature u obj n
         = (extractFromIsParmVariables u obj n)\<lparr>ExtractionMode := ''IsParm''\<rparr>"
  | (none) "ExtractProcedureSignature u obj n
         = \<lparr>Parameters = Some [], RawSignature = n @ ''();'', ExtractionMode = ''None''\<rparr>"
    using ExtractProcedureSignature_cases [of u obj n] by blast
  then show ?thesis
  proof cases
    case rule
    then show ?thesis by simp
  next
    case isparm
    from extractFromIsParmVariables_cases [of u obj n] isparm(1)
    obtain ps where "ps \<noteq> []" "Parameters (extractFromIsParmVariables u obj n) = Some ps"
      by (auto simp: emptySignature_def)
    with isparm show ?thesis by (simp add: lenSlice_def)
  next
    case none
    then show ?thesis by simp
  qed
qed

theorem ExtractProcedureSignature_modes_witness:
  "\<forall>u. ExtractionMode (ExtractProcedureSignature u docIsParm ''GetUser'') = ''IsParm''
   \<and> 0 < lenSlice (Parameters (ExtractProcedureSignature u docIsParm ''GetUser''))
   \<and> ExtractionMode (ExtractProcedureSignature u docNoParams ''DoSomething'') = ''None''
   \<and> Parameters (ExtractProcedureSignature u docNoParams ''DoSomething'') = Some []
   \<and> RawSignature (ExtractProcedureSignature u docNoParams ''DoSomething'') = ''DoSomething();''"
  (is "\<forall>u. ?W u")
proof
  fix u
  have a: "ExtractionMode (ExtractProcedureSignature u docIsParm ''GetUser'') = ''IsParm''"
    by code_simp
  have b: "ExtractionMode (ExtractProcedureSignature u docNoParams ''DoSomething'') = ''None''"
    by code_simp
  from ExtractProcedureSignature_modes [of u docIsParm "''GetUser''"] a
    ExtractProcedureSignature_modes [of u docNoParams "''DoSomething''"] b
  show "?W u" by simp
qed




end
